theory Spec2Isabelle
  imports Complex_Main "HOL-Library.Multiset"
begin

section \<open>Numbers\<close>

text \<open>
  The program computes with JavaScript numbers, that is, IEEE 754 binary64. The orbit
  recurrence is written over exact reals: on finite inputs it only takes the square root
  of an absolute value and the logarithm of a number that is at least 2. So the raw
  coordinates of the model are finite and unrounded; a raw coordinate that has overflowed
  is outside the model. The normalisation is where rounding, overflow and the division by
  a zero span decide what is stored, so every operation of the normalisation is rounded to
  binary64 by \<open>round64\<close> and yields a \<open>jsnum\<close>, a finite number, one of the two infinities
  or NaN. The two zeros are not told apart: the only division by zero is by a difference
  \<open>hi - lo\<close> with \<open>lo \<le> hi\<close>, which is the positive zero, and an infinity times either
  zero is NaN.
\<close>

datatype jsnum = Num real | PosInfinity | NegInfinity | NaN

text \<open>Rounding to the nearest integer, a tie going to the even one.\<close>

definition rne :: "real \<Rightarrow> int" where
  "rne t =
     (let f = \<lfloor>t\<rfloor>; d = t - of_int f
      in if d < 1/2 then f else if 1/2 < d then f + 1 else if even f then f else f + 1)"

text \<open>
  Rounding a real to binary64, to nearest with ties to even: 53 significant bits, the
  exponent not below \<open>-1022\<close> (gradual underflow), and a result of magnitude \<open>2^1024\<close>
  or more is the infinity of that sign.
\<close>

definition round64 :: "real \<Rightarrow> jsnum" where
  "round64 x =
     (if x = 0 then Num 0
      else
        (let e = max \<lfloor>log 2 \<bar>x\<bar>\<rfloor> (- 1022);
             u = 2 powi (e - 52);
             r = of_int (rne (x / u)) * u
         in if 2 ^ 1024 \<le> \<bar>r\<bar> then (if 0 < x then PosInfinity else NegInfinity)
            else Num r))"

text \<open>
  The operations the normalisation uses: a finite number divided by a difference, a
  product, and a number minus a finite constant.
\<close>

fun js_div :: "real \<Rightarrow> jsnum \<Rightarrow> jsnum" where
  "js_div n (Num m) =
     (if m \<noteq> 0 then round64 (n / m)
      else if 0 < n then PosInfinity
      else if n < 0 then NegInfinity
      else NaN)"
| "js_div n PosInfinity = Num 0"
| "js_div n NegInfinity = Num 0"
| "js_div n NaN = NaN"

fun js_mul :: "jsnum \<Rightarrow> jsnum \<Rightarrow> jsnum" where
  "js_mul (Num a) (Num b) = round64 (a * b)"
| "js_mul (Num a) PosInfinity = (if 0 < a then PosInfinity else if a < 0 then NegInfinity else NaN)"
| "js_mul (Num a) NegInfinity = (if 0 < a then NegInfinity else if a < 0 then PosInfinity else NaN)"
| "js_mul PosInfinity (Num b) = (if 0 < b then PosInfinity else if b < 0 then NegInfinity else NaN)"
| "js_mul NegInfinity (Num b) = (if 0 < b then NegInfinity else if b < 0 then PosInfinity else NaN)"
| "js_mul PosInfinity PosInfinity = PosInfinity"
| "js_mul PosInfinity NegInfinity = NegInfinity"
| "js_mul NegInfinity PosInfinity = NegInfinity"
| "js_mul NegInfinity NegInfinity = PosInfinity"
| "js_mul NaN v = NaN"
| "js_mul v NaN = NaN"

fun js_sub :: "jsnum \<Rightarrow> real \<Rightarrow> jsnum" where
  "js_sub (Num s) r = round64 (s - r)"
| "js_sub PosInfinity r = PosInfinity"
| "js_sub NegInfinity r = NegInfinity"
| "js_sub NaN r = NaN"

fun isFinite :: "jsnum \<Rightarrow> bool" where
  "isFinite (Num s) = True"
| "isFinite PosInfinity = False"
| "isFinite NegInfinity = False"
| "isFinite NaN = False"

datatype js_error = TypeError

section \<open>Constants and data\<close>

definition SCALE_FACTOR :: real where "SCALE_FACTOR = 1500"
definition CAMERA_BOUND :: real where "CAMERA_BOUND = 200"
definition LEVEL_DEPTH :: real where "LEVEL_DEPTH = 600"

record Constraint =
  cmin :: real
  cmax :: real

definition constraints_a :: Constraint where "constraints_a = \<lparr>cmin = -30, cmax = 30\<rparr>"
definition constraints_b :: Constraint where "constraints_b = \<lparr>cmin = 2/10, cmax = 18/10\<rparr>"
definition constraints_c :: Constraint where "constraints_c = \<lparr>cmin = 5, cmax = 17\<rparr>"
definition constraints_d :: Constraint where "constraints_d = \<lparr>cmin = 0, cmax = 10\<rparr>"
definition constraints_e :: Constraint where "constraints_e = \<lparr>cmin = 0, cmax = 12\<rparr>"

text \<open>
  \<open>OrbitParams\<close>: the five coefficients, the three mode scalars and the creation time,
  which the code treats as optional (\<open>!a.params.timeCreated\<close>). The fields \<open>a\<close> to \<open>e\<close>
  are \<open>coef_a\<close> to \<open>coef_e\<close> here, the \<open>x\<close> and \<open>y\<close> of a point are \<open>pt_x\<close> and \<open>pt_y\<close>,
  those of its vertex \<open>vec_x\<close> and \<open>vec_y\<close>, and the \<open>min\<close> and \<open>max\<close> of a constraint are
  \<open>cmin\<close> and \<open>cmax\<close> above: one-letter field names and \<open>min\<close>, \<open>max\<close> would hide
  variables and library constants.
\<close>

record OrbitParams =
  coef_a :: real
  coef_b :: real
  coef_c :: real
  coef_d :: real
  coef_e :: real
  choice :: real
  xPreset :: real
  yPreset :: real
  timeCreated :: "real option"

record Vector3 =
  vec_x :: jsnum
  vec_y :: jsnum
  vec_z :: jsnum

record SubsetPoint =
  pt_x :: real
  pt_y :: real
  vertex :: Vector3

record Orbit =
  subsets :: "SubsetPoint list list"
  xMin :: real
  xMax :: real
  yMin :: real
  yMax :: real
  scaleX :: jsnum
  scaleY :: jsnum

text \<open>
  A particle set: its level and subset, the repaint flag, the depth and rotation of its
  \<open>Points\<close> object, the geometry's \<open>verticesNeedUpdate\<close> flag, the hue its material was
  last painted with (\<open>None\<close> is JavaScript's \<open>undefined\<close>; the conversion \<open>hsvToHsl\<close>
  lives outside this file), and the parameters recorded at its last repaint.
\<close>

record ParticleSet =
  myLevel :: nat
  mySubset :: nat
  needsUpdate :: bool
  position_z :: real
  rotation_z :: real
  verticesNeedUpdate :: bool
  materialHue :: "real option"
  params :: OrbitParams

record Camera =
  cam_x :: real
  cam_y :: real
  cam_z :: real
  fov :: real

text \<open>
  The controller object. \<open>randomCalls\<close> is not a field of the class: it counts the calls
  of \<open>Math.random()\<close> made so far, so that the \<open>n\<close>-th call returns the \<open>n\<close>-th draw of
  the environment.
\<close>

record Hopalong =
  orbitParams :: OrbitParams
  orbitParamHistory :: "OrbitParams list"
  currentFrame :: nat
  vibeCheck :: bool
  hueValues :: "real list"
  mouseX :: real
  mouseY :: real
  mouseLocked :: bool
  speed :: real
  rotationSpeed :: real
  numPointsSubset :: nat
  numSubsets :: nat
  numLevels :: nat
  orbit :: Orbit
  particleSets :: "ParticleSet list"
  camera :: Camera
  randomCalls :: nat

text \<open>
  What the file imports or reads from outside: the draws of \<open>Math.random()\<close>, the clock,
  the catalog \<open>best_frames.json\<close> (the \<open>params\<close> of each entry) and the defaults module.
\<close>

record Defaults =
  default_speed :: real
  default_rotation_speed :: real
  default_fov :: real

record Env =
  math_random :: "nat \<Rightarrow> real"
  date_now :: real
  best_frames :: "OrbitParams list"
  defaults :: Defaults

section \<open>The current-parameters query\<close>

definition truthy :: "real option \<Rightarrow> bool" where
  "truthy t = (case t of None \<Rightarrow> False | Some v \<Rightarrow> v \<noteq> 0)"

text \<open>The comparator handed to \<open>sort\<close> in \<open>getCurrentOrbitParams\<close>.\<close>

definition compareSets :: "ParticleSet \<Rightarrow> ParticleSet \<Rightarrow> int" where
  "compareSets a b =
     (if \<not> truthy (timeCreated (params a)) \<or> \<not> truthy (timeCreated (params b)) then -1
      else if the (timeCreated (params a)) < the (timeCreated (params b)) then 1
      else -1)"

text \<open>
  \<open>Array.prototype.sort\<close> is modelled as an insertion sort, left to right, that looks only
  at the sign of the comparator: an element goes in front of the first element it compares
  below. (The language leaves the order to the engine when the comparator is inconsistent,
  as this one is on a missing or zero timestamp, where an engine may order the array
  differently; on pairwise distinct, truthy timestamps every comparison sort returns the
  same array.)
\<close>

fun insert_by :: "('a \<Rightarrow> 'a \<Rightarrow> int) \<Rightarrow> 'a \<Rightarrow> 'a list \<Rightarrow> 'a list" where
  "insert_by cmp v [] = [v]"
| "insert_by cmp v (w # ws) = (if cmp v w < 0 then v # w # ws else w # insert_by cmp v ws)"

definition array_sort :: "('a \<Rightarrow> 'a \<Rightarrow> int) \<Rightarrow> 'a list \<Rightarrow> 'a list" where
  "array_sort cmp vs = foldl (\<lambda>acc v. insert_by cmp v acc) [] vs"

text \<open>
  The query sorts \<open>particleSets\<close> in place and reads the \<open>params\<close> of the last element; on an
  empty array that element is \<open>undefined\<close> and the property access throws.
\<close>

definition getCurrentOrbitParams ::
    "Hopalong \<Rightarrow> (js_error \<times> Hopalong) + (OrbitParams \<times> Hopalong)" where
  "getCurrentOrbitParams st =
     (let latest = array_sort compareSets (particleSets st);
          st' = st\<lparr>particleSets := latest\<rparr>
      in if latest = [] then Inl (TypeError, st')
         else Inr (params (latest ! (length latest - 1)), st'))"

section \<open>Settings\<close>

record SettingsPatch =
  patch_speed :: "real option"
  patch_rotationSpeed :: "real option"
  patch_mouseLocked :: "bool option"
  patch_cameraFov :: "real option"

definition setCameraFOV :: "real \<Rightarrow> Hopalong \<Rightarrow> Hopalong" where
  "setCameraFOV f st = st\<lparr>camera := (camera st)\<lparr>fov := f\<rparr>\<rparr>"

definition applySettings :: "SettingsPatch \<Rightarrow> Hopalong \<Rightarrow> Hopalong" where
  "applySettings p st =
     (let st1 = (case patch_speed p of None \<Rightarrow> st | Some v \<Rightarrow> st\<lparr>speed := v\<rparr>);
          st2 = (case patch_rotationSpeed p of None \<Rightarrow> st1 | Some v \<Rightarrow> st1\<lparr>rotationSpeed := v\<rparr>);
          st3 = (case patch_mouseLocked p of None \<Rightarrow> st2 | Some v \<Rightarrow> st2\<lparr>mouseLocked := v\<rparr>)
      in (case patch_cameraFov p of None \<Rightarrow> st3 | Some v \<Rightarrow> setCameraFOV v st3))"

definition changeSpeed :: "real \<Rightarrow> Hopalong \<Rightarrow> Hopalong" where
  "changeSpeed delta st =
     (let newSpeed = speed st + delta
      in if newSpeed \<ge> 0 then st\<lparr>speed := newSpeed\<rparr> else st\<lparr>speed := 0\<rparr>)"

definition changeRotationSpeed :: "real \<Rightarrow> Hopalong \<Rightarrow> Hopalong" where
  "changeRotationSpeed delta st = st\<lparr>rotationSpeed := rotationSpeed st + delta\<rparr>"

definition resetDefaults :: "Env \<Rightarrow> Hopalong \<Rightarrow> Hopalong" where
  "resetDefaults env st =
     st\<lparr>speed := default_speed (defaults env),
        rotationSpeed := default_rotation_speed (defaults env),
        camera := (camera st)\<lparr>fov := default_fov (defaults env)\<rparr>\<rparr>"

section \<open>Parameter selection\<close>

text \<open>
  \<open>shuffleParams\<close>. In curated mode the index expression
  \<open>currentFrame > best_frames.length ? currentFrame = 0 : currentFrame++\<close> is evaluated
  first and updates the cursor; reading \<open>.params\<close> of an entry outside the catalog then
  throws, with the cursor already updated and nothing pushed to the history. In randomized
  mode the eight draws are made in the order of the object literal.
\<close>

definition shuffleParams :: "Env \<Rightarrow> Hopalong \<Rightarrow> (js_error \<times> Hopalong) + Hopalong" where
  "shuffleParams env st =
     (if vibeCheck st then
        (let n = length (best_frames env);
             idx = (if currentFrame st > n then 0 else currentFrame st);
             st1 = st\<lparr>currentFrame := (if currentFrame st > n then 0 else currentFrame st + 1)\<rparr>
         in if idx < n then
              (let st2 = st1\<lparr>orbitParams := best_frames env ! idx\<rparr>
               in Inr (st2\<lparr>orbitParamHistory := orbitParamHistory st2 @ [orbitParams st2]\<rparr>))
            else Inl (TypeError, st1))
      else
        (let r = math_random env; i = randomCalls st;
             st2 = st\<lparr>orbitParams :=
                      \<lparr>coef_a = cmin constraints_a + r i * (cmax constraints_a - cmin constraints_a),
                       coef_b = cmin constraints_b + r (i + 1) * (cmax constraints_b - cmin constraints_b),
                       coef_c = cmin constraints_c + r (i + 2) * (cmax constraints_c - cmin constraints_c),
                       coef_d = cmin constraints_d + r (i + 3) * (cmax constraints_d - cmin constraints_d),
                       coef_e = cmin constraints_e + r (i + 4) * (cmax constraints_e - cmin constraints_e),
                       choice = r (i + 5),
                       xPreset = r (i + 6),
                       yPreset = r (i + 7),
                       timeCreated = Some (date_now env)\<rparr>,
                    randomCalls := i + 8\<rparr>
         in Inr (st2\<lparr>orbitParamHistory := orbitParamHistory st2 @ [orbitParams st2]\<rparr>)))"

definition prepareOrbit :: "Env \<Rightarrow> Hopalong \<Rightarrow> (js_error \<times> Hopalong) + Hopalong" where
  "prepareOrbit env st =
     (case shuffleParams env st of
        Inl e \<Rightarrow> Inl e
      | Inr st1 \<Rightarrow> Inr (st1\<lparr>orbit := (orbit st1)\<lparr>xMin := 0, xMax := 0, yMin := 0, yMax := 0\<rparr>\<rparr>))"

section \<open>Orbit generation\<close>

text \<open>The iteration formula in the inner loop of \<open>generateOrbit\<close>.\<close>

definition orbit_z :: "OrbitParams \<Rightarrow> real \<Rightarrow> real" where
  "orbit_z p x =
     (if choice p < 1/2 then coef_d p + sqrt \<bar>coef_b p * x - coef_c p\<bar>
      else if choice p < 3/4 then coef_d p + sqrt (sqrt \<bar>coef_b p * x - coef_c p\<bar>)
      else coef_d p + ln (2 + sqrt \<bar>coef_b p * x - coef_c p\<bar>))"

definition hop :: "OrbitParams \<Rightarrow> real \<times> real \<Rightarrow> real \<times> real" where
  "hop p xy =
     (let x = fst xy; y = snd xy;
          z = orbit_z p x;
          x1 = (if x > 0 then y - z else if x = 0 then y else y + z)
      in (x1 + coef_e p, coef_a p - x))"

text \<open>
  The running bounds of one axis, as a pair (minimum, maximum), updated by the
  \<open>if (v < min) ... else if (v > max) ...\<close> of the loop body.
\<close>

definition track :: "real \<times> real \<Rightarrow> real \<Rightarrow> real \<times> real" where
  "track b v = (if v < fst b then (v, snd b) else if v > snd b then (fst b, v) else b)"

type_synonym bounds = "(real \<times> real) \<times> (real \<times> real)"

definition track2 :: "bounds \<Rightarrow> real \<times> real \<Rightarrow> bounds" where
  "track2 bnd xy = (track (fst bnd) (fst xy), track (snd bnd) (snd xy))"

text \<open>
  The inner loop over the points of one subset: it returns the raw points in the order
  they are stored, and the bounds. \<open>initOrbit\<close> allocates \<open>numSubsets\<close> arrays of
  \<open>numPointsSubset\<close> points, and both passes of \<open>generateOrbit\<close> overwrite every one of
  them, so the model builds the arrays anew.
\<close>

fun points_loop :: "OrbitParams \<Rightarrow> nat \<Rightarrow> real \<times> real \<Rightarrow> bounds \<Rightarrow> (real \<times> real) list \<times> bounds" where
  "points_loop p 0 xy bnd = ([], bnd)"
| "points_loop p (Suc n) xy bnd =
     (let xy' = hop p xy;
          (pts, bnd') = points_loop p n xy' (track2 bnd xy')
      in (xy' # pts, bnd'))"

definition start_coord :: "nat \<Rightarrow> real \<Rightarrow> real \<Rightarrow> real" where
  "start_coord s preset r = real s * (5/1000) * (1/2 - preset * (r / 2))"

text \<open>
  The outer loop: subsets \<open>s, s + 1, ...\<close> (\<open>k\<close> of them remain), the number of points per
  subset \<open>m\<close>, and the index \<open>ri\<close> of the next random draw.
\<close>

fun subsets_loop ::
    "OrbitParams \<Rightarrow> (nat \<Rightarrow> real) \<Rightarrow> nat \<Rightarrow> nat \<Rightarrow> nat \<Rightarrow> nat \<Rightarrow> bounds
       \<Rightarrow> (real \<times> real) list list \<times> bounds \<times> nat" where
  "subsets_loop p rnd m s 0 ri bnd = ([], bnd, ri)"
| "subsets_loop p rnd m s (Suc k) ri bnd =
     (let x = start_coord s (xPreset p) (rnd ri);
          y = start_coord s (yPreset p) (rnd (ri + 1));
          (pts, bnd1) = points_loop p m (x, y) bnd;
          (rest, bnd2, ri') = subsets_loop p rnd m (Suc s) k (ri + 2) bnd1
      in (pts # rest, bnd2, ri'))"

text \<open>
  The second pass: the display position \<open>scale * (raw - lo) - SCALE_FACTOR\<close> of a raw
  coordinate, each of the three operations rounded.
\<close>

definition display :: "jsnum \<Rightarrow> real \<Rightarrow> real \<Rightarrow> jsnum" where
  "display scale lo raw = js_sub (js_mul scale (round64 (raw - lo))) SCALE_FACTOR"

definition normalize :: "jsnum \<Rightarrow> jsnum \<Rightarrow> real \<Rightarrow> real \<Rightarrow> real \<times> real \<Rightarrow> SubsetPoint" where
  "normalize sx sy xlo ylo xy =
     \<lparr>pt_x = fst xy, pt_y = snd xy,
      vertex = \<lparr>vec_x = display sx xlo (fst xy), vec_y = display sy ylo (snd xy), vec_z = Num 0\<rparr>\<rparr>"

definition generateOrbit :: "Env \<Rightarrow> Hopalong \<Rightarrow> (js_error \<times> Hopalong) + Hopalong" where
  "generateOrbit env st =
     (case prepareOrbit env st of
        Inl e \<Rightarrow> Inl e
      | Inr st1 \<Rightarrow>
          (let (raw, bnd, ri) =
                 subsets_loop (orbitParams st1) (math_random env) (numPointsSubset st1) 0
                   (numSubsets st1) (randomCalls st1) ((0, 0), (0, 0));
               xMin_l = fst (fst bnd); xMax_l = snd (fst bnd);
               yMin_l = fst (snd bnd); yMax_l = snd (snd bnd);
               scaleX_l = js_div (2 * SCALE_FACTOR) (round64 (xMax_l - xMin_l));
               scaleY_l = js_div (2 * SCALE_FACTOR) (round64 (yMax_l - yMin_l))
           in Inr (st1\<lparr>orbit :=
                        \<lparr>subsets = map (map (normalize scaleX_l scaleY_l xMin_l yMin_l)) raw,
                         xMin = xMin_l, xMax = xMax_l, yMin = yMin_l, yMax = yMax_l,
                         scaleX = scaleX_l, scaleY = scaleY_l\<rparr>,
                      randomCalls := ri\<rparr>)))"

definition generateHues :: "Env \<Rightarrow> Hopalong \<Rightarrow> Hopalong" where
  "generateHues env st =
     st\<lparr>hueValues := map (\<lambda>s. math_random env (randomCalls st + s)) [0..<numSubsets st]
                        @ drop (numSubsets st) (hueValues st),
        randomCalls := randomCalls st + numSubsets st\<rparr>"

text \<open>The periodic regeneration: an exception of \<open>generateOrbit\<close> leaves the flags untouched.\<close>

definition updateOrbit :: "Env \<Rightarrow> Hopalong \<Rightarrow> (js_error \<times> Hopalong) + Hopalong" where
  "updateOrbit env st =
     (case generateOrbit env st of
        Inl e \<Rightarrow> Inl e
      | Inr st1 \<Rightarrow>
          (let st2 = generateHues env st1
           in Inr (st2\<lparr>particleSets := map (\<lambda>g. g\<lparr>needsUpdate := True\<rparr>) (particleSets st2)\<rparr>)))"

section \<open>The frame tick\<close>

definition ease :: "real \<Rightarrow> real \<Rightarrow> real" where
  "ease pos target =
     (if pos \<ge> - CAMERA_BOUND \<and> pos \<le> CAMERA_BOUND then
        (let p1 = pos + (target - pos) * (5/100);
             p2 = (if p1 < - CAMERA_BOUND then - CAMERA_BOUND else p1)
         in if p2 > CAMERA_BOUND then CAMERA_BOUND else p2)
      else pos)"

definition hueAt :: "real list \<Rightarrow> nat \<Rightarrow> real option" where
  "hueAt hs s = (if s < length hs then Some (hs ! s) else None)"

text \<open>The body of the loop over the particle sets in \<open>render\<close>.\<close>

definition crossing :: "Hopalong \<Rightarrow> ParticleSet \<Rightarrow> bool" where
  "crossing st g = (position_z g + speed st > cam_z (camera st))"

definition renderSet :: "Hopalong \<Rightarrow> ParticleSet \<Rightarrow> ParticleSet" where
  "renderSet st g =
     (let g1 = g\<lparr>position_z := position_z g + speed st,
                 rotation_z := rotation_z g + rotationSpeed st\<rparr>
      in if position_z g1 > cam_z (camera st) then
           (let g2 = g1\<lparr>position_z := - (real (numLevels st) - 1) * LEVEL_DEPTH\<rparr>
            in if needsUpdate g2 then
                 g2\<lparr>verticesNeedUpdate := True,
                    materialHue := hueAt (hueValues st) (mySubset g2),
                    needsUpdate := False,
                    params := orbitParams st\<rparr>
               else g2)
         else g1)"

definition render :: "Hopalong \<Rightarrow> Hopalong" where
  "render st =
     st\<lparr>camera := (camera st)\<lparr>cam_x := ease (cam_x (camera st)) (mouseX st),
                               cam_y := ease (cam_y (camera st)) (- mouseY st)\<rparr>,
        particleSets := map (renderSet st) (particleSets st)\<rparr>"

section \<open>States used in the worked examples\<close>

definition zero_params :: OrbitParams where
  "zero_params =
     \<lparr>coef_a = 0, coef_b = 0, coef_c = 0, coef_d = 0, coef_e = 0, choice = 0,
      xPreset = 0, yPreset = 0, timeCreated = Some 1\<rparr>"

text \<open>
  A controller with one subset of one point and three levels, in curated mode, with the
  camera at depth \<open>SCALE_FACTOR / 2\<close> where \<open>init\<close> puts it, and no particle sets yet.
\<close>

definition example_state :: Hopalong where
  "example_state =
     \<lparr>orbitParams = zero_params,
      orbitParamHistory = [],
      currentFrame = 0,
      vibeCheck = True,
      hueValues = [],
      mouseX = 0, mouseY = 0, mouseLocked = False,
      speed = 2, rotationSpeed = 0,
      numPointsSubset = 1, numSubsets = 1, numLevels = 3,
      orbit = \<lparr>subsets = [], xMin = 0, xMax = 0, yMin = 0, yMax = 0,
               scaleX = Num 0, scaleY = Num 0\<rparr>,
      particleSets = [],
      camera = \<lparr>cam_x = 0, cam_y = 0, cam_z = SCALE_FACTOR / 2, fov = 60\<rparr>,
      randomCalls = 0\<rparr>"

definition example_defaults :: Defaults where
  "example_defaults = \<lparr>default_speed = 2, default_rotation_speed = 0, default_fov = 60\<rparr>"

text \<open>
  An environment whose every random draw is one half and whose catalog has two entries.
\<close>

definition half_env :: Env where
  "half_env = \<lparr>math_random = (\<lambda>n. 1/2), date_now = 1000,
                best_frames = [zero_params, zero_params\<lparr>coef_a := 1\<rparr>],
                defaults = example_defaults\<rparr>"

text \<open>
  \<open>n\<close> parameter selections in a row, as the regeneration timer makes them, up to the
  first exception.
\<close>

fun selections :: "Env \<Rightarrow> nat \<Rightarrow> Hopalong \<Rightarrow> (js_error \<times> Hopalong) + Hopalong" where
  "selections env 0 st = Inr st"
| "selections env (Suc n) st =
     (case selections env n st of Inl e \<Rightarrow> Inl e | Inr st1 \<Rightarrow> shuffleParams env st1)"

text \<open>
  A particle set of subset 0 at a given depth with a given repaint flag, and the example
  controller holding just that set, one hue and changed current parameters.
\<close>

definition group_at :: "real \<Rightarrow> bool \<Rightarrow> ParticleSet" where
  "group_at depth flag =
     \<lparr>myLevel = 0, mySubset = 0, needsUpdate = flag, position_z = depth, rotation_z = 0,
      verticesNeedUpdate = False, materialHue = None, params = zero_params\<rparr>"

definition scene_state :: "real \<Rightarrow> bool \<Rightarrow> Hopalong" where
  "scene_state depth flag =
     example_state\<lparr>particleSets := [group_at depth flag], hueValues := [1/4],
                   orbitParams := zero_params\<lparr>coef_a := 1\<rparr>\<rparr>"

text \<open>The parameters of the worked trace of the recurrence, with a chosen \<open>choice\<close>.\<close>

definition trace_params :: "real \<Rightarrow> OrbitParams" where
  "trace_params ch =
     \<lparr>coef_a = 1, coef_b = 1, coef_c = 10, coef_d = 0, coef_e = 0, choice = ch,
      xPreset = 0, yPreset = 0, timeCreated = None\<rparr>"

text \<open>The creation time a particle set carries, when it has one.\<close>

definition stamp :: "ParticleSet \<Rightarrow> real" where
  "stamp g = the (timeCreated (params g))"

text \<open>
  A particle set whose parameters were created at a given time, and the example controller
  holding an older and a newer one, in this order.
\<close>

definition group_created :: "real \<Rightarrow> ParticleSet" where
  "group_created t = (group_at 0 False)\<lparr>params := zero_params\<lparr>timeCreated := Some t\<rparr>\<rparr>"

definition rated_state :: Hopalong where
  "rated_state = example_state\<lparr>particleSets := [group_created 1000, group_created 2000]\<rparr>"

text \<open>
  Environments with a one-entry catalog, or with chosen random draws; and parameters whose
  orbit from the origin is the cycle \<open>(5, 5), (10, 0), (5, -5), (0, 0)\<close>.
\<close>

definition single_env :: "OrbitParams \<Rightarrow> Env" where
  "single_env p = half_env\<lparr>best_frames := [p]\<rparr>"


definition draws_env :: "(nat \<Rightarrow> real) \<Rightarrow> Env" where
  "draws_env r = half_env\<lparr>math_random := r\<rparr>"

text \<open>
  Parameters inside the constraint intervals whose first two points from the origin are
  \<open>(6, 24)\<close> and \<open>(24, 18)\<close>, and the random draws that select them in randomized mode.
\<close>

definition drift_params :: OrbitParams where
  "drift_params =
     \<lparr>coef_a = 24, coef_b = 1, coef_c = 5, coef_d = 5, coef_e = 6, choice = 1/4,
      xPreset = 1/2, yPreset = 1/2, timeCreated = Some 1000\<rparr>"



section \<open>The speed setting\<close>

text \<open>
  What each path stores. \<open>changeSpeed\<close> stores \<open>speed + delta\<close> when that is at least 0
  and exactly 0 otherwise, so the speed is never negative after it. \<open>applySettings\<close> stores
  a supplied speed as it is given, without the clamp, and keeps the old one when none is
  supplied; \<open>resetDefaults\<close> stores the default speed; \<open>changeRotationSpeed\<close> leaves the
  speed alone.
\<close>

lemma speed_mutations:
  "speed (changeSpeed delta st) = (if speed st + delta \<ge> 0 then speed st + delta else 0)
   \<and> 0 \<le> speed (changeSpeed delta st)
   \<and> speed (applySettings p st) = (case patch_speed p of None \<Rightarrow> speed st | Some v \<Rightarrow> v)
   \<and> speed (resetDefaults env st) = default_speed (defaults env)
   \<and> speed (changeRotationSpeed delta st) = speed st"
  by (simp add: changeSpeed_def applySettings_def resetDefaults_def changeRotationSpeed_def
        setCameraFOV_def Let_def split: option.split)

text \<open>
  C7 on the code. The claim does not hold of \<open>applySettings\<close>: from the speed 2, a decrease
  by 3 through \<open>changeSpeed\<close> is clamped to exactly 0, but \<open>applySettings\<close> with the speed
  \<open>-1\<close> stores \<open>-1\<close>, a negative speed.
\<close>

theorem applySettings_negative_speed:
  "0 \<le> speed example_state
   \<and> speed (changeSpeed (- 3) example_state) = 0
   \<and> speed (applySettings \<lparr>patch_speed = Some (-1), patch_rotationSpeed = None,
        patch_mouseLocked = None, patch_cameraFov = None\<rparr> example_state) = - 1
   \<and> speed (applySettings \<lparr>patch_speed = Some (-1), patch_rotationSpeed = None,
        patch_mouseLocked = None, patch_cameraFov = None\<rparr> example_state) < 0"
  by (simp add: applySettings_def changeSpeed_def example_state_def)

section \<open>Randomized parameters lie in their intervals\<close>

text \<open>
  C8. In randomized mode, whatever the draws in \<open>[0, 1)\<close> are, the selection returns and
  the new parameters satisfy \<open>a \<in> [-30, 30]\<close>, \<open>b \<in> [0.2, 1.8]\<close>, \<open>c \<in> [5, 17]\<close>,
  \<open>d \<in> [0, 10]\<close>, \<open>e \<in> [0, 12]\<close>, and \<open>choice\<close>, \<open>xPreset\<close>, \<open>yPreset\<close> lie in \<open>[0, 1)\<close>.
\<close>

theorem shuffleParams_random_within_constraints:
  assumes "\<not> vibeCheck st"
    and "\<forall>n. 0 \<le> math_random env n \<and> math_random env n < 1"
  shows "\<exists>st'. shuffleParams env st = Inr st'
           \<and> - 30 \<le> coef_a (orbitParams st') \<and> coef_a (orbitParams st') \<le> 30
           \<and> 2/10 \<le> coef_b (orbitParams st') \<and> coef_b (orbitParams st') \<le> 18/10
           \<and> 5 \<le> coef_c (orbitParams st') \<and> coef_c (orbitParams st') \<le> 17
           \<and> 0 \<le> coef_d (orbitParams st') \<and> coef_d (orbitParams st') \<le> 10
           \<and> 0 \<le> coef_e (orbitParams st') \<and> coef_e (orbitParams st') \<le> 12
           \<and> 0 \<le> choice (orbitParams st') \<and> choice (orbitParams st') < 1
           \<and> 0 \<le> xPreset (orbitParams st') \<and> xPreset (orbitParams st') < 1
           \<and> 0 \<le> yPreset (orbitParams st') \<and> yPreset (orbitParams st') < 1"
proof -
  let ?r = "math_random env" and ?i = "randomCalls st"
  have r: "\<And>n. 0 \<le> ?r n" "\<And>n. ?r n < 1" using assms(2) by auto
  have a: "- 30 \<le> - 30 + ?r ?i * 60" "- 30 + ?r ?i * 60 \<le> 30"
    using r(1)[of ?i] r(2)[of ?i] by auto
  have b: "2/10 \<le> 2/10 + ?r (?i + 1) * (16/10)" "2/10 + ?r (?i + 1) * (16/10) \<le> 18/10"
    using r(1)[of "?i + 1"] r(2)[of "?i + 1"] by auto
  have c: "5 \<le> 5 + ?r (?i + 2) * 12" "5 + ?r (?i + 2) * 12 \<le> 17"
    using r(1)[of "?i + 2"] r(2)[of "?i + 2"] by auto
  have d: "0 \<le> ?r (?i + 3) * 10" "?r (?i + 3) * 10 \<le> 10"
    using r(1)[of "?i + 3"] r(2)[of "?i + 3"] by auto
  have e: "0 \<le> ?r (?i + 4) * 12" "?r (?i + 4) * 12 \<le> 12"
    using r(1)[of "?i + 4"] r(2)[of "?i + 4"] by auto
  show ?thesis
    using assms(1) a b c d e r
    by (simp add: shuffleParams_def Let_def constraints_a_def constraints_b_def
          constraints_c_def constraints_d_def constraints_e_def)
qed

theorem shuffleParams_random_within_constraints_witness:
  "\<exists>st'. shuffleParams half_env (example_state\<lparr>vibeCheck := False\<rparr>) = Inr st'
           \<and> - 30 \<le> coef_a (orbitParams st') \<and> coef_a (orbitParams st') \<le> 30
           \<and> 2/10 \<le> coef_b (orbitParams st') \<and> coef_b (orbitParams st') \<le> 18/10
           \<and> 5 \<le> coef_c (orbitParams st') \<and> coef_c (orbitParams st') \<le> 17
           \<and> 0 \<le> coef_d (orbitParams st') \<and> coef_d (orbitParams st') \<le> 10
           \<and> 0 \<le> coef_e (orbitParams st') \<and> coef_e (orbitParams st') \<le> 12
           \<and> 0 \<le> choice (orbitParams st') \<and> choice (orbitParams st') < 1
           \<and> 0 \<le> xPreset (orbitParams st') \<and> xPreset (orbitParams st') < 1
           \<and> 0 \<le> yPreset (orbitParams st') \<and> yPreset (orbitParams st') < 1"
proof -
  have h1: "\<not> vibeCheck (example_state\<lparr>vibeCheck := False\<rparr>)" by simp
  have h2: "\<forall>n. 0 \<le> math_random half_env n \<and> math_random half_env n < 1"
    by (simp add: half_env_def)
  show ?thesis by (rule shuffleParams_random_within_constraints [OF h1 h2])
qed

section \<open>The curated cursor overruns the catalog\<close>

lemma selections_curated:
  assumes "vibeCheck st" and "currentFrame st = 0"
  shows "n \<le> length (best_frames env) \<Longrightarrow>
         \<exists>st'. selections env n st = Inr st' \<and> vibeCheck st' \<and> currentFrame st' = n
            \<and> (0 < n \<longrightarrow> orbitParams st' = best_frames env ! (n - 1))"
proof (induction n)
  case 0
  then show ?case using assms by simp
next
  case (Suc n)
  then obtain st1 where s: "selections env n st = Inr st1" "vibeCheck st1" "currentFrame st1 = n"
    by auto
  from Suc.prems s show ?case
    by (simp add: shuffleParams_def Let_def)
qed

text \<open>
  C3 on the code. The guard compares with \<open>>\<close>, not \<open>\<ge>\<close>: starting from cursor 0 in curated
  mode, the first \<open>K\<close> selections succeed and leave the cursor at \<open>K\<close>, the catalog length;
  the next selection does not reset the cursor but reads index \<open>K\<close>, outside the catalog,
  and throws a TypeError with the cursor moved on to \<open>K + 1\<close>. So \<open>K + 1\<close> selections do not
  return entry 0.
\<close>

theorem curated_overrun_throws:
  assumes "vibeCheck st" and "currentFrame st = 0"
  shows "\<exists>st' st''. selections env (length (best_frames env)) st = Inr st'
           \<and> currentFrame st' = length (best_frames env)
           \<and> shuffleParams env st' = Inl (TypeError, st'')
           \<and> currentFrame st'' = Suc (length (best_frames env))
           \<and> selections env (Suc (length (best_frames env))) st = Inl (TypeError, st'')"
proof -
  obtain st' where s: "selections env (length (best_frames env)) st = Inr st'"
      "vibeCheck st'" "currentFrame st' = length (best_frames env)"
    using selections_curated [OF assms, of "length (best_frames env)" env] by auto
  then show ?thesis
    by (simp add: shuffleParams_def Let_def)
qed

theorem curated_overrun_throws_witness:
  "vibeCheck example_state \<and> currentFrame example_state = 0 \<and> length (best_frames half_env) = 2
   \<and> (\<exists>st' st''. selections half_env 2 example_state = Inr st'
           \<and> currentFrame st' = 2
           \<and> shuffleParams half_env st' = Inl (TypeError, st'')
           \<and> currentFrame st'' = 3
           \<and> selections half_env 3 example_state = Inl (TypeError, st''))"
proof -
  have h1: "vibeCheck example_state" and h2: "currentFrame example_state = 0"
    by (simp_all add: example_state_def)
  have l: "length (best_frames half_env) = 2" by (simp add: half_env_def)
  have n: "Suc 2 = 3" by simp
  show ?thesis
    using curated_overrun_throws [OF h1 h2, of half_env] h1 h2 l
    by (simp add: n)
qed

section \<open>Depth, rotation and crossing in a frame tick\<close>

lemma renderSet_render: "renderSet (render st) = renderSet st"
  by (rule ext) (simp add: renderSet_def render_def Let_def)

lemma renderSet_funpow_render: "renderSet ((render ^^ n) st) = renderSet st"
  by (induction n) (simp_all add: renderSet_render)

lemma particleSets_funpow_render:
  "particleSets ((render ^^ n) st) = map (renderSet st ^^ n) (particleSets st)"
proof (induction n)
  case 0
  show ?case by simp
next
  case (Suc n)
  have "particleSets ((render ^^ Suc n) st)
          = map (renderSet ((render ^^ n) st)) (particleSets ((render ^^ n) st))"
    by (simp add: render_def)
  also have "\<dots> = map (renderSet st) (map (renderSet st ^^ n) (particleSets st))"
    by (simp only: renderSet_funpow_render Suc.IH)
  finally show ?case by simp
qed

lemma renderSet_position:
  "position_z (renderSet st g) =
     (if crossing st g then - (real (numLevels st) - 1) * LEVEL_DEPTH
      else position_z g + speed st)"
  by (simp add: renderSet_def crossing_def Let_def)

lemma approach_camera:
  assumes "speed st = 2" and "cam_z (camera st) = 750"
    and "position_z g = 750 - 2 * real k"
  shows "j \<le> k \<Longrightarrow> position_z ((renderSet st ^^ j) g) = 750 - 2 * real (k - j)"
proof (induction j)
  case 0
  then show ?case using assms by simp
next
  case (Suc j)
  then have p: "position_z ((renderSet st ^^ j) g) = 750 - 2 * real (k - j)" by simp
  from Suc.prems have r: "real (k - j) = real (k - Suc j) + 1" by (simp add: Suc_diff_Suc)
  have "\<not> crossing st ((renderSet st ^^ j) g)"
    using assms(1,2) p r by (simp add: crossing_def)
  then show ?case using assms(1) p r by (simp add: renderSet_position)
qed

text \<open>
  C5. \<open>render\<close> applies the loop body to every particle set. The body adds the rotation
  speed to the rotation and the speed to the depth; the set crosses exactly when the
  advanced depth exceeds the camera's depth, and then its depth is
  \<open>-(numLevels - 1) * LEVEL_DEPTH\<close>. With speed 2, three levels and the camera at depth
  750, a set that starts at depth \<open>750 - 2k\<close> is at depth \<open>750 - 2(k - j)\<close> after \<open>j \<le> k\<close>
  ticks, so it reaches the camera's depth after exactly \<open>k\<close> ticks without having been
  reset, and the tick after that takes it past the camera and resets it to \<open>-1200\<close>.
\<close>

theorem frame_tick_depth_and_crossing:
  "particleSets (render st) = map (renderSet st) (particleSets st)
   \<and> rotation_z (renderSet st g) = rotation_z g + rotationSpeed st
   \<and> crossing st g = (position_z g + speed st > cam_z (camera st))
   \<and> position_z (renderSet st g) =
       (if crossing st g then - (real (numLevels st) - 1) * LEVEL_DEPTH
        else position_z g + speed st)
   \<and> (speed st = 2 \<and> numLevels st = 3 \<and> cam_z (camera st) = 750
        \<and> i < length (particleSets st)
        \<and> position_z (particleSets st ! i) = 750 - 2 * real k
      \<longrightarrow> (\<forall>j\<le>k. position_z (particleSets ((render ^^ j) st) ! i) = 750 - 2 * real (k - j))
          \<and> position_z (particleSets ((render ^^ k) st) ! i) = 750
          \<and> position_z (particleSets ((render ^^ Suc k) st) ! i) = - 1200)"
proof -
  have a: "particleSets (render st) = map (renderSet st) (particleSets st)"
    by (simp add: render_def)
  have b: "rotation_z (renderSet st g) = rotation_z g + rotationSpeed st"
    by (simp add: renderSet_def Let_def)
  have c: "crossing st g = (position_z g + speed st > cam_z (camera st))"
    by (simp add: crossing_def)
  have e: "(\<forall>j\<le>k. position_z (particleSets ((render ^^ j) st) ! i) = 750 - 2 * real (k - j))
          \<and> position_z (particleSets ((render ^^ k) st) ! i) = 750
          \<and> position_z (particleSets ((render ^^ Suc k) st) ! i) = - 1200"
    if h: "speed st = 2" "numLevels st = 3" "cam_z (camera st) = 750"
      "i < length (particleSets st)" "position_z (particleSets st ! i) = 750 - 2 * real k"
  proof -
    let ?g = "particleSets st ! i"
    have n: "particleSets ((render ^^ j) st) ! i = (renderSet st ^^ j) ?g" for j
      using h(4) by (simp add: particleSets_funpow_render)
    have p: "position_z ((renderSet st ^^ j) ?g) = 750 - 2 * real (k - j)" if "j \<le> k" for j
      using approach_camera [OF h(1) h(3) h(5) that] .
    have k: "position_z ((renderSet st ^^ k) ?g) = 750" using p [of k] by simp
    have "crossing st ((renderSet st ^^ k) ?g)" using k h(1,3) by (simp add: crossing_def)
    then have "position_z ((renderSet st ^^ Suc k) ?g) = - 1200"
      using h(2) by (simp add: renderSet_position LEVEL_DEPTH_def)
    with p k show ?thesis by (simp only: n) simp
  qed
  show ?thesis using a b c e renderSet_position [of st g] by blast
qed

theorem frame_tick_depth_and_crossing_witness:
  "speed (scene_state 744 False) = 2 \<and> numLevels (scene_state 744 False) = 3
   \<and> cam_z (camera (scene_state 744 False)) = 750
   \<and> position_z (particleSets (scene_state 744 False) ! 0) = 750 - 2 * real (3::nat)
   \<and> position_z (particleSets ((render ^^ 2) (scene_state 744 False)) ! 0) = 748
   \<and> position_z (particleSets ((render ^^ 3) (scene_state 744 False)) ! 0) = 750
   \<and> position_z (particleSets ((render ^^ 4) (scene_state 744 False)) ! 0) = - 1200"
proof -
  let ?s = "scene_state 744 False"
  have h: "speed ?s = 2 \<and> numLevels ?s = 3 \<and> cam_z (camera ?s) = 750
        \<and> 0 < length (particleSets ?s)
        \<and> position_z (particleSets ?s ! 0) = 750 - 2 * real (3::nat)"
    by (simp add: scene_state_def example_state_def group_at_def SCALE_FACTOR_def)
  from frame_tick_depth_and_crossing [of ?s "group_at 744 False" 0 3] h
  have r: "(\<forall>j\<le>3. position_z (particleSets ((render ^^ j) ?s) ! 0) = 750 - 2 * real (3 - j))
          \<and> position_z (particleSets ((render ^^ 3) ?s) ! 0) = 750
          \<and> position_z (particleSets ((render ^^ Suc 3) ?s) ! 0) = - 1200"
    by blast
  then have "position_z (particleSets ((render ^^ 2) ?s) ! 0) = 750 - 2 * real (3 - (2::nat))"
    by simp
  moreover have "Suc 3 = 4" by simp
  ultimately show ?thesis using h r by simp
qed


section \<open>The repaint flag\<close>

lemma shuffleParams_curated_returns:
  "vibeCheck st \<Longrightarrow> currentFrame st < length (best_frames env)
     \<Longrightarrow> \<exists>st1. shuffleParams env st = Inr st1 \<and> particleSets st1 = particleSets st"
  by (simp add: shuffleParams_def Let_def)

lemma generateOrbit_curated_returns:
  assumes "vibeCheck st" and "currentFrame st < length (best_frames env)"
  shows "\<exists>st1. generateOrbit env st = Inr st1 \<and> particleSets st1 = particleSets st"
proof -
  obtain st1 where s: "shuffleParams env st = Inr st1" "particleSets st1 = particleSets st"
    using shuffleParams_curated_returns [OF assms] by blast
  then show ?thesis
    by (simp add: generateOrbit_def prepareOrbit_def case_prod_beta Let_def)
qed

lemma updateOrbit_curated_returns:
  assumes "vibeCheck st" and "currentFrame st < length (best_frames env)"
  shows "\<exists>st'. updateOrbit env st = Inr st'
           \<and> particleSets st' = map (\<lambda>g. g\<lparr>needsUpdate := True\<rparr>) (particleSets st)"
proof -
  obtain st1 where s: "generateOrbit env st = Inr st1" "particleSets st1 = particleSets st"
    using generateOrbit_curated_returns [OF assms] by blast
  then show ?thesis
    by (simp add: updateOrbit_def generateHues_def Let_def)
qed

lemma shuffleParams_particleSets:
  "shuffleParams env st = Inr st1 \<Longrightarrow> particleSets st1 = particleSets st"
  by (auto simp: shuffleParams_def Let_def split: if_splits)

lemma generateOrbit_particleSets:
  "generateOrbit env st = Inr st1 \<Longrightarrow> particleSets st1 = particleSets st"
  by (auto simp: generateOrbit_def prepareOrbit_def case_prod_beta Let_def
        dest: shuffleParams_particleSets split: sum.splits)

lemma updateOrbit_flags:
  "updateOrbit env st = Inr st'
     \<Longrightarrow> particleSets st' = map (\<lambda>g. g\<lparr>needsUpdate := True\<rparr>) (particleSets st)"
  by (auto simp: updateOrbit_def generateHues_def Let_def
        dest: generateOrbit_particleSets split: sum.splits)

lemma renderSet_flag_kept:
  "\<not> crossing st g \<Longrightarrow> needsUpdate (renderSet st g) = needsUpdate g"
  by (simp add: renderSet_def crossing_def Let_def)

lemma flag_until_crossing:
  "needsUpdate g \<Longrightarrow> (\<forall>j<n. \<not> crossing st ((renderSet st ^^ j) g))
     \<Longrightarrow> needsUpdate ((renderSet st ^^ n) g)"
proof (induction n)
  case 0
  then show ?case by simp
next
  case (Suc n)
  then have "needsUpdate ((renderSet st ^^ n) g)" and "\<not> crossing st ((renderSet st ^^ n) g)"
    by simp_all
  then show ?case by (simp add: renderSet_flag_kept)
qed

text \<open>
  C6. A regeneration that returns leaves every particle set flagged. In a frame tick a set
  that crosses has its flag clear afterwards; a flagged set keeps its flag through the
  ticks in which it does not cross, and the tick of its first crossing clears it. Whenever
  a tick clears the flag, the set crosses in that tick and in the same tick requests the
  vertex upload of the shared point cloud, takes the current hue of its subset and
  records the current orbit parameters.
\<close>

theorem repaint_flag_protocol:
  "(updateOrbit env st = Inr st'
      \<longrightarrow> length (particleSets st') = length (particleSets st)
          \<and> (\<forall>g \<in> set (particleSets st'). needsUpdate g))
   \<and> particleSets (render st) = map (renderSet st) (particleSets st)
   \<and> (crossing st g \<longrightarrow> \<not> needsUpdate (renderSet st g))
   \<and> (needsUpdate g \<and> (\<forall>j<n. \<not> crossing st ((renderSet st ^^ j) g))
        \<and> crossing st ((renderSet st ^^ n) g)
      \<longrightarrow> needsUpdate ((renderSet st ^^ n) g) \<and> \<not> needsUpdate ((renderSet st ^^ Suc n) g))
   \<and> (needsUpdate g \<and> \<not> needsUpdate (renderSet st g)
      \<longrightarrow> crossing st g
          \<and> verticesNeedUpdate (renderSet st g)
          \<and> materialHue (renderSet st g) = hueAt (hueValues st) (mySubset g)
          \<and> params (renderSet st g) = orbitParams st)"
proof -
  have a: "updateOrbit env st = Inr st'
      \<longrightarrow> length (particleSets st') = length (particleSets st)
          \<and> (\<forall>g \<in> set (particleSets st'). needsUpdate g)"
    using updateOrbit_flags [of env st st'] by auto
  have b: "particleSets (render st) = map (renderSet st) (particleSets st)"
    by (simp add: render_def)
  have c: "crossing st h \<longrightarrow> \<not> needsUpdate (renderSet st h)" for h
    by (simp add: renderSet_def crossing_def Let_def)
  have d: "needsUpdate g \<and> (\<forall>j<n. \<not> crossing st ((renderSet st ^^ j) g))
        \<and> crossing st ((renderSet st ^^ n) g)
      \<longrightarrow> needsUpdate ((renderSet st ^^ n) g) \<and> \<not> needsUpdate ((renderSet st ^^ Suc n) g)"
    using flag_until_crossing [of g n st] c [of "(renderSet st ^^ n) g"] by simp
  have e: "needsUpdate g \<and> \<not> needsUpdate (renderSet st g)
      \<longrightarrow> crossing st g
          \<and> verticesNeedUpdate (renderSet st g)
          \<and> materialHue (renderSet st g) = hueAt (hueValues st) (mySubset g)
          \<and> params (renderSet st g) = orbitParams st"
    by (simp add: renderSet_def crossing_def Let_def)
  show ?thesis using a b c [of g] d e by blast
qed



theorem repaint_flag_protocol_witness:
  "(\<exists>st'. updateOrbit half_env (scene_state 747 False) = Inr st'
       \<and> map needsUpdate (particleSets st') = [True])
   \<and> needsUpdate (group_at 747 True)
   \<and> \<not> crossing (scene_state 747 True) (group_at 747 True)
   \<and> needsUpdate (renderSet (scene_state 747 True) (group_at 747 True))
   \<and> crossing (scene_state 747 True) (renderSet (scene_state 747 True) (group_at 747 True))
   \<and> \<not> needsUpdate (renderSet (scene_state 747 True)
          (renderSet (scene_state 747 True) (group_at 747 True)))
   \<and> verticesNeedUpdate (renderSet (scene_state 747 True)
          (renderSet (scene_state 747 True) (group_at 747 True)))
   \<and> materialHue (renderSet (scene_state 747 True)
          (renderSet (scene_state 747 True) (group_at 747 True))) = Some (1/4)
   \<and> params (renderSet (scene_state 747 True)
          (renderSet (scene_state 747 True) (group_at 747 True))) = zero_params\<lparr>coef_a := 1\<rparr>"
proof -
  let ?s = "scene_state 747 True" and ?g = "group_at 747 True"
  let ?g1 = "renderSet ?s ?g"
  let ?g2 = "renderSet ?s ?g1"
  have "vibeCheck (scene_state 747 False)"
    and "currentFrame (scene_state 747 False) < length (best_frames half_env)"
    by (simp_all add: scene_state_def example_state_def half_env_def)
  from updateOrbit_curated_returns [OF this]
  obtain st' where u: "updateOrbit half_env (scene_state 747 False) = Inr st'"
      "map needsUpdate (particleSets st') = [True]"
    by (auto simp: scene_state_def)
  have f: "needsUpdate ?g" by (simp add: group_at_def)
  have nc: "\<not> crossing ?s ?g"
    by (simp add: crossing_def scene_state_def example_state_def group_at_def SCALE_FACTOR_def)
  have p1: "position_z ?g1 = 749" "mySubset ?g1 = 0"
    by (simp_all add: renderSet_def scene_state_def example_state_def group_at_def
          SCALE_FACTOR_def)
  have cr: "crossing ?s ?g1"
    using p1 by (simp add: crossing_def scene_state_def example_state_def SCALE_FACTOR_def)
  have hv: "hueAt (hueValues ?s) 0 = Some (1/4)" "orbitParams ?s = zero_params\<lparr>coef_a := 1\<rparr>"
    by (simp_all add: hueAt_def scene_state_def)
  have pw: "(renderSet ?s ^^ Suc 0) ?g = ?g1" "(renderSet ?s ^^ Suc (Suc 0)) ?g = ?g2"
    by simp_all
  have n1: "\<forall>j<Suc 0. \<not> crossing ?s ((renderSet ?s ^^ j) ?g)" using nc by simp
  have c1: "crossing ?s ((renderSet ?s ^^ Suc 0) ?g)" using cr by (simp only: pw)
  from repaint_flag_protocol [of half_env ?s st' ?g "Suc 0"] f n1 c1
  have "needsUpdate ((renderSet ?s ^^ Suc 0) ?g) \<and> \<not> needsUpdate ((renderSet ?s ^^ Suc (Suc 0)) ?g)"
    by blast
  then have k: "needsUpdate ?g1" "\<not> needsUpdate ?g2" unfolding pw by blast+
  from repaint_flag_protocol [of half_env ?s st' ?g1 0] k
  have "verticesNeedUpdate ?g2 \<and> materialHue ?g2 = hueAt (hueValues ?s) (mySubset ?g1)
          \<and> params ?g2 = orbitParams ?s"
    by blast
  then have a: "verticesNeedUpdate ?g2" "materialHue ?g2 = Some (1/4)"
      "params ?g2 = zero_params\<lparr>coef_a := 1\<rparr>"
    unfolding p1 hv by blast+
  from u have "\<exists>st'. updateOrbit half_env (scene_state 747 False) = Inr st'
       \<and> map needsUpdate (particleSets st') = [True]" by (intro exI [of _ st'] conjI)
  with f nc k cr a show ?thesis by (intro conjI)
qed

section \<open>The orbit recurrence\<close>

lemma points_loop_iterates:
  "fst (points_loop p n xy bnd) = map (\<lambda>i. (hop p ^^ Suc i) xy) [0..<n]"
proof (induction n arbitrary: xy bnd)
  case 0
  show ?case by simp
next
  case (Suc n)
  have "fst (points_loop p (Suc n) xy bnd)
          = hop p xy # fst (points_loop p n (hop p xy) (track2 bnd (hop p xy)))"
    by (simp add: Let_def case_prod_beta)
  also have "\<dots> = hop p xy # map (\<lambda>i. (hop p ^^ Suc i) (hop p xy)) [0..<n]"
    by (simp only: Suc.IH)
  also have "\<dots> = map (\<lambda>i. (hop p ^^ Suc i) xy) [0..<Suc n]"
    by (simp add: map_upt_Suc funpow_swap1 del: upt_Suc)
  finally show ?case .
qed

text \<open>
  C1. In one step of the recurrence, \<open>z\<close> is \<open>d + sqrt |b x - c|\<close> when \<open>choice < 0.5\<close>,
  \<open>d + sqrt (sqrt |b x - c|)\<close> when \<open>0.5 \<le> choice < 0.75\<close> and
  \<open>d + log (2 + sqrt |b x - c|)\<close> when \<open>choice \<ge> 0.75\<close>; the new point is
  \<open>(x1 + e, a - x)\<close> with \<open>x1 = y - z\<close> for \<open>x > 0\<close>, \<open>x1 = y\<close> for \<open>x = 0\<close> and
  \<open>x1 = y + z\<close> for \<open>x < 0\<close>; and the \<open>i\<close>-th point the inner loop stores is the result
  of \<open>i + 1\<close> such steps from the subset's starting point. The worked instance is the trace
  \<open>choice = 0.3\<close>, \<open>a = 1\<close>, \<open>b = 1\<close>, \<open>c = 10\<close>, \<open>d = e = 0\<close> from \<open>(2, 0)\<close>, where
  \<open>z = sqrt 8 = 2.828...\<close> and the new point is \<open>(-sqrt 8, -1)\<close>, with one step of each
  other branch.
\<close>

theorem orbit_step_formula:
  "(choice p < 1/2 \<longrightarrow> orbit_z p x = coef_d p + sqrt \<bar>coef_b p * x - coef_c p\<bar>)
   \<and> (1/2 \<le> choice p \<and> choice p < 3/4
        \<longrightarrow> orbit_z p x = coef_d p + sqrt (sqrt \<bar>coef_b p * x - coef_c p\<bar>))
   \<and> (3/4 \<le> choice p \<longrightarrow> orbit_z p x = coef_d p + ln (2 + sqrt \<bar>coef_b p * x - coef_c p\<bar>))
   \<and> (0 < x \<longrightarrow> hop p (x, y) = (y - orbit_z p x + coef_e p, coef_a p - x))
   \<and> (x = 0 \<longrightarrow> hop p (x, y) = (y + coef_e p, coef_a p - x))
   \<and> (x < 0 \<longrightarrow> hop p (x, y) = (y + orbit_z p x + coef_e p, coef_a p - x))
   \<and> fst (points_loop p n (x, y) bnd) = map (\<lambda>i. (hop p ^^ Suc i) (x, y)) [0..<n]"
  by (simp add: orbit_z_def hop_def Let_def points_loop_iterates)

lemma sqrt8_bounds: "2828/1000 < sqrt (8::real)" "sqrt (8::real) < 2829/1000"
proof -
  have "(2828/1000)\<^sup>2 < (8::real)" by (simp add: power2_eq_square)
  then show "2828/1000 < sqrt (8::real)" by (rule real_less_rsqrt)
  have "(8::real) < (2829/1000)\<^sup>2" by (simp add: power2_eq_square)
  then show "sqrt (8::real) < 2829/1000" by (rule real_less_lsqrt [rotated 1]) simp
qed

theorem orbit_step_formula_witness:
  "choice (trace_params (3/10)) < 1/2
   \<and> orbit_z (trace_params (3/10)) 2 = sqrt 8
   \<and> 2828/1000 < sqrt (8::real) \<and> sqrt (8::real) < 2829/1000
   \<and> hop (trace_params (3/10)) (2, 0) = (- sqrt 8, - 1)
   \<and> fst (points_loop (trace_params (3/10)) 1 (2, 0) ((0, 0), (0, 0))) = [(- sqrt 8, - 1)]
   \<and> orbit_z (trace_params (6/10)) 0 = sqrt (sqrt 10)
   \<and> hop (trace_params (6/10)) (0, 3) = (3, 1)
   \<and> orbit_z (trace_params (9/10)) (- 6) = ln (2 + sqrt 16)
   \<and> hop (trace_params (9/10)) (- 6, 0) = (ln (2 + sqrt 16), 7)"
proof -
  let ?b = "((0, 0), (0, 0)) :: bounds"
  have c: "choice (trace_params (3/10)) < 1/2" by (simp add: trace_params_def)
  note t1 = orbit_step_formula [of "trace_params (3/10)" 2 0 1 ?b]
  note t2 = orbit_step_formula [of "trace_params (6/10)" 0 3 0 ?b]
  note t3 = orbit_step_formula [of "trace_params (9/10)" "- 6" 0 0 ?b]
  have z1: "orbit_z (trace_params (3/10)) 2 = sqrt 8"
    using t1 by (simp add: trace_params_def)
  have h1: "hop (trace_params (3/10)) (2, 0) = (- sqrt 8, - 1)"
    using t1 z1 by (simp add: trace_params_def)
  from t1 have "fst (points_loop (trace_params (3/10)) 1 (2, 0) ?b)
      = map (\<lambda>i. (hop (trace_params (3/10)) ^^ Suc i) (2, 0)) [0..<1]"
    by blast
  then have l1: "fst (points_loop (trace_params (3/10)) 1 (2, 0) ?b) = [(- sqrt 8, - 1)]"
    by (simp add: h1 del: points_loop.simps)
  have z2: "orbit_z (trace_params (6/10)) 0 = sqrt (sqrt 10)"
    using t2 by (simp add: trace_params_def)
  have h2: "hop (trace_params (6/10)) (0, 3) = (3, 1)"
    using t2 by (simp add: trace_params_def)
  have z3: "orbit_z (trace_params (9/10)) (- 6) = ln (2 + sqrt 16)"
    using t3 by (simp add: trace_params_def)
  have h3: "hop (trace_params (9/10)) (- 6, 0) = (ln (2 + sqrt 16), 7)"
    using t3 z3 by (simp add: trace_params_def)
  show ?thesis using c z1 h1 l1 z2 h2 z3 h3 sqrt8_bounds by (intro conjI)
qed

section \<open>What the current-parameters query returns and changes\<close>

lemma mset_insert_by: "mset (insert_by cmp v ws) = add_mset v (mset ws)"
  by (induction ws) simp_all

lemma mset_insert_all:
  "mset (foldl (\<lambda>acc v. insert_by cmp v acc) acc vs) = mset acc + mset vs"
  by (induction vs arbitrary: acc) (simp_all add: mset_insert_by)

lemma mset_array_sort: "mset (array_sort cmp vs) = mset vs"
  by (simp add: array_sort_def mset_insert_all)

lemma set_array_sort: "set (array_sort cmp vs) = set vs"
  using mset_array_sort [of cmp vs] by (metis set_mset_mset)

lemma set_insert_by: "set (insert_by cmp v ws) = insert v (set ws)"
  using mset_insert_by [of cmp v ws] by (metis set_mset_mset set_mset_add_mset_insert)

lemma compareSets_truthy:
  "truthy (timeCreated (params v)) \<Longrightarrow> truthy (timeCreated (params w))
     \<Longrightarrow> (compareSets v w < 0) = (stamp w \<le> stamp v)"
  by (auto simp: compareSets_def stamp_def)

lemma insert_by_descending:
  assumes "truthy (timeCreated (params v))"
  shows "\<forall>w \<in> set ws. truthy (timeCreated (params w))
     \<Longrightarrow> sorted_wrt (\<lambda>a b. stamp b \<le> stamp a) ws
     \<Longrightarrow> sorted_wrt (\<lambda>a b. stamp b \<le> stamp a) (insert_by compareSets v ws)"
proof (induction ws)
  case Nil
  show ?case by simp
next
  case (Cons w ws)
  show ?case
  proof (cases "compareSets v w < 0")
    case True
    then have "stamp w \<le> stamp v" using assms Cons.prems(1) by (simp add: compareSets_truthy)
    moreover have "\<forall>u \<in> set ws. stamp u \<le> stamp w" using Cons.prems(2) by simp
    ultimately have "\<forall>u \<in> set (w # ws). stamp u \<le> stamp v" by fastforce
    with True Cons.prems(2) show ?thesis by simp
  next
    case False
    then have "stamp v \<le> stamp w" using assms Cons.prems(1) by (simp add: compareSets_truthy)
    with False Cons show ?thesis by (simp add: set_insert_by)
  qed
qed

lemma insert_all_descending:
  "\<forall>w \<in> set acc \<union> set vs. truthy (timeCreated (params w))
     \<Longrightarrow> sorted_wrt (\<lambda>a b. stamp b \<le> stamp a) acc
     \<Longrightarrow> sorted_wrt (\<lambda>a b. stamp b \<le> stamp a)
           (foldl (\<lambda>acc v. insert_by compareSets v acc) acc vs)"
proof (induction vs arbitrary: acc)
  case Nil
  then show ?case by simp
next
  case (Cons v vs)
  have "sorted_wrt (\<lambda>a b. stamp b \<le> stamp a) (insert_by compareSets v acc)"
    using Cons.prems by (intro insert_by_descending) simp_all
  moreover have "\<forall>w \<in> set (insert_by compareSets v acc) \<union> set vs. truthy (timeCreated (params w))"
    using Cons.prems(1) by (simp add: set_insert_by)
  ultimately show ?case using Cons.IH by simp
qed

lemma array_sort_descending:
  "\<forall>w \<in> set vs. truthy (timeCreated (params w))
     \<Longrightarrow> sorted_wrt (\<lambda>a b. stamp b \<le> stamp a) (array_sort compareSets vs)"
  unfolding array_sort_def by (rule insert_all_descending) simp_all

lemma last_of_descending:
  "sorted_wrt (\<lambda>a b. stamp b \<le> stamp a) ws \<Longrightarrow> ws \<noteq> []
     \<Longrightarrow> \<forall>u \<in> set ws. stamp (last ws) \<le> stamp u"
  by (induction ws) auto

text \<open>
  The same holds for any arrangement the comparator accepts, whatever algorithm produced
  it: if every element compares below all later ones, the last element is an earliest set.
\<close>

lemma accepted_order_ends_oldest:
  assumes "\<forall>w \<in> set vs. truthy (timeCreated (params w))"
    and "sorted_wrt (\<lambda>a b. compareSets a b < 0) vs" and "vs \<noteq> []"
  shows "\<forall>u \<in> set vs. stamp (last vs) \<le> stamp u"
proof -
  have "sorted_wrt (\<lambda>a b. stamp b \<le> stamp a) vs"
    using assms(1) by (intro sorted_wrt_mono_rel [OF _ assms(2)]) (simp add: compareSets_truthy)
  then show ?thesis using assms(3) by (rule last_of_descending)
qed

text \<open>
  C4 on the code. The comparator puts the newer set first, and the query returns the
  parameters of the last element of the sorted array: for a non-empty collection whose
  sets all carry a (non-zero) creation time, the result is the parameters of a set whose
  creation time is the least of all, that is the earliest, not the latest.
\<close>

theorem getCurrentOrbitParams_returns_oldest:
  assumes "particleSets st \<noteq> []"
    and "\<forall>g \<in> set (particleSets st). truthy (timeCreated (params g))"
  shows "\<exists>g st'. getCurrentOrbitParams st = Inr (params g, st')
           \<and> g \<in> set (particleSets st)
           \<and> (\<forall>h \<in> set (particleSets st). stamp g \<le> stamp h)"
proof -
  let ?latest = "array_sort compareSets (particleSets st)"
  have ne: "?latest \<noteq> []"
    using assms(1) mset_array_sort [of compareSets "particleSets st"] by auto
  have d: "sorted_wrt (\<lambda>a b. stamp b \<le> stamp a) ?latest"
    using assms(2) by (rule array_sort_descending)
  have m: "\<forall>u \<in> set (particleSets st). stamp (last ?latest) \<le> stamp u"
    using last_of_descending [OF d ne] by (simp add: set_array_sort)
  have i: "last ?latest \<in> set (particleSets st)"
    using last_in_set [OF ne] by (simp add: set_array_sort)
  have "getCurrentOrbitParams st = Inr (params (last ?latest), st\<lparr>particleSets := ?latest\<rparr>)"
    using ne by (simp add: getCurrentOrbitParams_def Let_def last_conv_nth)
  with m i show ?thesis by blast
qed

lemma rated_stamps: "stamp (group_created t) = t" "truthy (timeCreated (params (group_created t))) = (t \<noteq> 0)"
  by (simp_all add: stamp_def group_created_def truthy_def)

theorem getCurrentOrbitParams_returns_oldest_witness:
  "particleSets rated_state = [group_created 1000, group_created 2000]
   \<and> stamp (group_created 1000) < stamp (group_created 2000)
   \<and> (\<exists>st'. getCurrentOrbitParams rated_state = Inr (params (group_created 1000), st'))"
proof -
  have p: "particleSets rated_state = [group_created 1000, group_created 2000]"
    by (simp add: rated_state_def)
  have h1: "particleSets rated_state \<noteq> []" by (simp add: p)
  have h2: "\<forall>g \<in> set (particleSets rated_state). truthy (timeCreated (params g))"
    by (simp add: p rated_stamps)
  from getCurrentOrbitParams_returns_oldest [OF h1 h2]
  obtain g st' where r: "getCurrentOrbitParams rated_state = Inr (params g, st')"
      "g \<in> set (particleSets rated_state)"
      "\<forall>h \<in> set (particleSets rated_state). stamp g \<le> stamp h"
    by blast
  from r(3) have "stamp g \<le> 1000" by (simp add: p rated_stamps)
  with r(2) have "g = group_created 1000" by (auto simp: p rated_stamps)
  with r(1) p show ?thesis by (simp add: rated_stamps)
qed

text \<open>
  C10. The query is not a pure read: when it returns, the controller is the old one with
  \<open>particleSets\<close> replaced by the sorted array, a permutation of the old one, and there is
  a controller on which the order after the query differs from the order before.
\<close>

theorem getCurrentOrbitParams_reorders:
  "(getCurrentOrbitParams st = Inr (q, st')
      \<longrightarrow> st' = st\<lparr>particleSets := array_sort compareSets (particleSets st)\<rparr>
          \<and> mset (particleSets st') = mset (particleSets st))
   \<and> (\<exists>s r s'. getCurrentOrbitParams s = Inr (r, s') \<and> particleSets s' \<noteq> particleSets s)"
proof -
  have a: "getCurrentOrbitParams st = Inr (q, st')
      \<longrightarrow> st' = st\<lparr>particleSets := array_sort compareSets (particleSets st)\<rparr>
          \<and> mset (particleSets st') = mset (particleSets st)"
    by (auto simp: getCurrentOrbitParams_def Let_def mset_array_sort split: if_splits)
  have s: "array_sort compareSets [group_created 1000, group_created 2000]
             = [group_created 2000, group_created 1000]"
    by (simp add: array_sort_def compareSets_truthy rated_stamps)
  have "getCurrentOrbitParams rated_state
          = Inr (params (group_created 1000),
                 rated_state\<lparr>particleSets := [group_created 2000, group_created 1000]\<rparr>)"
    by (simp add: getCurrentOrbitParams_def Let_def rated_state_def s)
  moreover have "stamp (group_created 2000) \<noteq> stamp (group_created 1000)"
    by (simp add: rated_stamps)
  then have "group_created 2000 \<noteq> group_created 1000" by auto
  then have "particleSets (rated_state\<lparr>particleSets := [group_created 2000, group_created 1000]\<rparr>)
               \<noteq> particleSets rated_state"
    by (simp add: rated_state_def)
  ultimately have "\<exists>s r s'. getCurrentOrbitParams s = Inr (r, s') \<and> particleSets s' \<noteq> particleSets s"
    by blast
  with a show ?thesis by blast
qed

theorem getCurrentOrbitParams_reorders_witness:
  "getCurrentOrbitParams rated_state
     = Inr (params (group_created 1000),
            rated_state\<lparr>particleSets := [group_created 2000, group_created 1000]\<rparr>)
   \<and> mset [group_created 2000, group_created 1000] = mset (particleSets rated_state)
   \<and> [group_created 2000, group_created 1000] \<noteq> particleSets rated_state"
proof -
  let ?s' = "rated_state\<lparr>particleSets := [group_created 2000, group_created 1000]\<rparr>"
  have s: "array_sort compareSets [group_created 1000, group_created 2000]
             = [group_created 2000, group_created 1000]"
    by (simp add: array_sort_def compareSets_truthy rated_stamps)
  have e: "getCurrentOrbitParams rated_state = Inr (params (group_created 1000), ?s')"
    by (simp add: getCurrentOrbitParams_def Let_def rated_state_def s)
  from getCurrentOrbitParams_reorders [of rated_state "params (group_created 1000)" ?s'] e
  have "mset (particleSets ?s') = mset (particleSets rated_state)" by blast
  then have m: "mset [group_created 2000, group_created 1000] = mset (particleSets rated_state)"
    by simp
  have "stamp (group_created 2000) \<noteq> stamp (group_created 1000)"
    by (simp add: rated_stamps)
  then have "group_created 2000 \<noteq> group_created 1000" by auto
  then have "[group_created 2000, group_created 1000] \<noteq> particleSets rated_state"
    by (simp add: rated_state_def)
  with e m show ?thesis by (intro conjI)
qed

section \<open>Rounding to binary64\<close>

lemma rne_of_int: "rne (of_int k) = k"
  by (simp add: rne_def)

lemma rne_close: "\<bar>of_int (rne t) - t\<bar> \<le> 1/2"
proof -
  have "of_int \<lfloor>t\<rfloor> \<le> t" "t < of_int \<lfloor>t\<rfloor> + 1" by linarith+
  then show ?thesis by (auto simp: rne_def Let_def)
qed

lemma powr_powi:
  "2 powr (real_of_int k) = (2::real) powi k"
  "2 powr (real_of_int k + 1) = (2::real) powi (k + 1)"
proof -
  show "2 powr (real_of_int k) = (2::real) powi k" by (rule powr_real_of_int') simp_all
  have "2 powr (real_of_int (k + 1)) = (2::real) powi (k + 1)"
    by (rule powr_real_of_int') simp_all
  then show "2 powr (real_of_int k + 1) = (2::real) powi (k + 1)" by simp
qed

lemma exponent_bounds:
  assumes "x \<noteq> 0"
  shows "2 powi \<lfloor>log 2 \<bar>x\<bar>\<rfloor> \<le> \<bar>x\<bar>" and "\<bar>x\<bar> < 2 powi (\<lfloor>log 2 \<bar>x\<bar>\<rfloor> + 1)"
proof -
  have p: "0 < \<bar>x\<bar>" using assms by simp
  have "2 powr (of_int \<lfloor>log 2 \<bar>x\<bar>\<rfloor>) \<le> \<bar>x\<bar> \<and> \<bar>x\<bar> < 2 powr (of_int (\<lfloor>log 2 \<bar>x\<bar>\<rfloor> + 1))"
    using floor_log_eq_powr_iff [OF p, of 2 "\<lfloor>log 2 \<bar>x\<bar>\<rfloor>"] by simp
  then show "2 powi \<lfloor>log 2 \<bar>x\<bar>\<rfloor> \<le> \<bar>x\<bar>" and "\<bar>x\<bar> < 2 powi (\<lfloor>log 2 \<bar>x\<bar>\<rfloor> + 1)"
    by (simp_all add: powr_powi)
qed

lemma exponent_eq:
  assumes "2 powi e \<le> \<bar>x\<bar>" and "\<bar>x\<bar> < 2 powi (e + 1)"
  shows "\<lfloor>log 2 \<bar>x\<bar>\<rfloor> = e"
proof -
  have p: "0 < \<bar>x\<bar>" using assms(1) zero_less_power_int [of "2::real" e] by linarith
  have "2 powr (of_int e) \<le> \<bar>x\<bar> \<and> \<bar>x\<bar> < 2 powr (of_int (e + 1))"
    using assms by (simp add: powr_powi)
  then show ?thesis using floor_log_eq_powr_iff [OF p, of 2 e] by simp
qed

lemma round64_zero: "round64 0 = Num 0"
  by (simp add: round64_def)

lemma round64_eval:
  assumes "2 powi e \<le> \<bar>x\<bar>" and "\<bar>x\<bar> < 2 powi (e + 1)" and "- 1022 \<le> e" and "e \<le> 1022"
  shows "round64 x = Num (of_int (rne (x / 2 powi (e - 52))) * 2 powi (e - 52))"
    and "\<bar>of_int (rne (x / 2 powi (e - 52))) * 2 powi (e - 52) - x\<bar> \<le> 2 powi e / 2 ^ 53"
proof -
  define u :: real where "u = 2 powi (e - 52)"
  define r where "r = of_int (rne (x / u)) * u"
  have u: "0 < u" by (simp add: u_def)
  have "(0::real) < 2 powi e" by simp
  then have "0 < \<bar>x\<bar>" using assms(1) by linarith
  then have x: "x \<noteq> 0" by simp
  have ex: "\<lfloor>log 2 \<bar>x\<bar>\<rfloor> = e" using assms(1,2) by (rule exponent_eq)
  have "r - x = (of_int (rne (x / u)) - x / u) * u"
    using u by (simp add: r_def field_simps)
  then have "\<bar>r - x\<bar> = \<bar>of_int (rne (x / u)) - x / u\<bar> * u"
    using u by (simp add: abs_mult)
  also have "\<dots> \<le> 1/2 * u" using rne_close [of "x / u"] u by (intro mult_right_mono) simp_all
  also have "1/2 * u = 2 powi e / 2 ^ 53" by (simp add: u_def power_int_diff)
  finally have c: "\<bar>r - x\<bar> \<le> 2 powi e / 2 ^ 53" .
  have "2 powi e / 2 ^ 53 \<le> (2::real) powi e" by (simp add: field_simps)
  also have "\<dots> \<le> 2 powi (e + 1)" by (simp add: power_int_add)
  finally have "\<bar>r\<bar> < 2 powi (e + 1) + 2 powi (e + 1)" using c assms(2) by linarith
  also have "\<dots> = 2 powi (e + 2)" by (simp add: power_int_add)
  also have "\<dots> \<le> 2 powi 1024" using assms(4) by (intro power_int_increasing) simp_all
  finally have "\<not> 2 ^ 1024 \<le> \<bar>r\<bar>" by simp
  then have "round64 x = Num r"
    using x assms(3) by (simp add: round64_def ex Let_def r_def u_def max_def)
  then show "round64 x = Num (of_int (rne (x / 2 powi (e - 52))) * 2 powi (e - 52))"
    by (simp add: r_def u_def)
  show "\<bar>of_int (rne (x / 2 powi (e - 52))) * 2 powi (e - 52) - x\<bar> \<le> 2 powi e / 2 ^ 53"
    using c by (simp add: r_def u_def)
qed

lemma round64_exact:
  assumes "2 powi e \<le> \<bar>x\<bar>" and "\<bar>x\<bar> < 2 powi (e + 1)" and "- 1022 \<le> e" and "e \<le> 1022"
    and "x / 2 powi (e - 52) = of_int k"
  shows "round64 x = Num x"
proof -
  have "of_int (rne (x / 2 powi (e - 52))) * 2 powi (e - 52) = x / 2 powi (e - 52) * 2 powi (e - 52)"
    by (simp only: assms(5) rne_of_int)
  also have "\<dots> = x" by simp
  finally show ?thesis using round64_eval(1) [OF assms(1-4)] by simp
qed

lemma round64_of_int:
  assumes "\<bar>n\<bar> < 2 ^ 53"
  shows "round64 (of_int n) = Num (of_int n)"
proof (cases "n = 0")
  case True
  then show ?thesis by (simp add: round64_zero)
next
  case False
  define x :: real where "x = of_int n"
  define e where "e = \<lfloor>log 2 \<bar>x\<bar>\<rfloor>"
  have x: "x \<noteq> 0" "1 \<le> \<bar>x\<bar>" "\<bar>x\<bar> < 2 ^ 53"
    using False assms by (simp_all add: x_def flip: of_int_abs)
  have b: "2 powi e \<le> \<bar>x\<bar>" "\<bar>x\<bar> < 2 powi (e + 1)"
    unfolding e_def using exponent_bounds [OF x(1)] by simp_all
  have e0: "0 \<le> e"
  proof (rule ccontr)
    assume "\<not> 0 \<le> e"
    then have "(2::real) powi (e + 1) \<le> 2 powi 0" by (intro power_int_increasing) simp_all
    with b(2) x(2) show False by simp
  qed
  have e52: "e \<le> 52"
  proof (rule ccontr)
    assume "\<not> e \<le> 52"
    then have "(2::real) powi 53 \<le> 2 powi e" by (intro power_int_increasing) simp_all
    with b(1) x(3) show False by simp
  qed
  have "(2::real) powi (e - 52) = 1 / 2 ^ nat (52 - e)"
    using e52 by (simp add: power_int_def field_simps) 
  then have "x / 2 powi (e - 52) = of_int (n * 2 ^ nat (52 - e))"
    by (simp add: x_def)
  from round64_exact [OF b _ _ this] e0 e52 show ?thesis by (simp add: x_def)
qed

lemma round64_numeral:
  "(numeral k :: int) < 2 ^ 53 \<Longrightarrow> round64 (numeral k) = Num (numeral k)"
  "(numeral k :: int) < 2 ^ 53 \<Longrightarrow> round64 (- numeral k) = Num (- numeral k)"
  using round64_of_int [of "numeral k"] round64_of_int [of "- numeral k"] by simp_all

lemma round64_rel:
  assumes "2 powi (- 1022) \<le> \<bar>x\<bar>" and "\<bar>x\<bar> < 2 powi 1023"
  shows "\<exists>r. round64 x = Num r \<and> \<bar>r - x\<bar> \<le> \<bar>x\<bar> / 2 ^ 53"
proof -
  define e where "e = \<lfloor>log 2 \<bar>x\<bar>\<rfloor>"
  have "(0::real) < 2 powi (- 1022)" by simp
  then have "0 < \<bar>x\<bar>" using assms(1) by linarith
  then have x: "x \<noteq> 0" by simp
  have b: "2 powi e \<le> \<bar>x\<bar>" "\<bar>x\<bar> < 2 powi (e + 1)"
    unfolding e_def using exponent_bounds [OF x] by simp_all
  have lo: "- 1022 \<le> e"
  proof (rule ccontr)
    assume "\<not> - 1022 \<le> e"
    then have "(2::real) powi (e + 1) \<le> 2 powi (- 1022)" by (intro power_int_increasing) simp_all
    with b(2) assms(1) show False by linarith
  qed
  have hi: "e \<le> 1022"
  proof (rule ccontr)
    assume "\<not> e \<le> 1022"
    then have "(2::real) powi 1023 \<le> 2 powi e" by (intro power_int_increasing) simp_all
    with b(1) assms(2) show False by linarith
  qed
  note v = round64_eval [OF b lo hi]
  have "2 powi e / 2 ^ 53 \<le> \<bar>x\<bar> / 2 ^ 53" using b(1) by (simp add: divide_right_mono)
  with v show ?thesis by force
qed

section \<open>Bounding box and normalisation\<close>

lemma track_min_max: "fst b \<le> snd b \<Longrightarrow> track b v = (min (fst b) v, max (snd b) v)"
  by (cases b) (auto simp: track_def)

lemma foldl_track:
  "fst b \<le> snd b \<Longrightarrow>
     fst (foldl track b vs) \<in> insert (fst b) (set vs)
     \<and> (\<forall>v \<in> insert (fst b) (set vs). fst (foldl track b vs) \<le> v)
     \<and> snd (foldl track b vs) \<in> insert (snd b) (set vs)
     \<and> (\<forall>v \<in> insert (snd b) (set vs). v \<le> snd (foldl track b vs))"
proof (induction vs arbitrary: b)
  case Nil
  then show ?case by simp
next
  case (Cons v vs)
  let ?b = "(min (fst b) v, max (snd b) v)"
  have o: "fst ?b \<le> snd ?b" using Cons.prems by auto
  have t: "track b v = ?b" using Cons.prems by (rule track_min_max)
  from Cons.IH [OF o] show ?case
    unfolding foldl_Cons t by (auto simp: min_def max_def split: if_splits)
qed

lemma foldl_track_Min_Max:
  assumes "fst b \<le> snd b"
  shows "fst (foldl track b vs) = Min (insert (fst b) (set vs))"
    and "snd (foldl track b vs) = Max (insert (snd b) (set vs))"
proof -
  note f = foldl_track [OF assms, of vs]
  show "fst (foldl track b vs) = Min (insert (fst b) (set vs))"
    using f by (intro Min_eqI [symmetric]) auto
  show "snd (foldl track b vs) = Max (insert (snd b) (set vs))"
    using f by (intro Max_eqI [symmetric]) auto
qed

lemma foldl_track2:
  "foldl track2 bnd pts = (foldl track (fst bnd) (map fst pts), foldl track (snd bnd) (map snd pts))"
  by (induction pts arbitrary: bnd) (simp_all add: track2_def)

lemma points_loop_bounds:
  "snd (points_loop p n xy bnd) = foldl track2 bnd (fst (points_loop p n xy bnd))"
  by (induction n arbitrary: xy bnd) (simp_all add: Let_def case_prod_beta)

lemma subsets_loop_bounds:
  "fst (snd (subsets_loop p rnd m s k ri bnd))
     = foldl track2 bnd (concat (fst (subsets_loop p rnd m s k ri bnd)))"
proof (induction k arbitrary: s ri bnd)
  case 0
  show ?case by simp
next
  case (Suc k)
  show ?case
    by (simp add: Let_def case_prod_beta Suc.IH points_loop_bounds)
qed

lemma normalize_fields:
  "pt_x (normalize sx sy xlo ylo xy) = fst xy"
  "pt_y (normalize sx sy xlo ylo xy) = snd xy"
  "vec_x (vertex (normalize sx sy xlo ylo xy)) = display sx xlo (fst xy)"
  "vec_y (vertex (normalize sx sy xlo ylo xy)) = display sy ylo (snd xy)"
  by (simp_all add: normalize_def)

lemma generateOrbit_raw:
  assumes "generateOrbit env st = Inr st'"
  shows "\<exists>raw. subsets (orbit st')
             = map (map (normalize (scaleX (orbit st')) (scaleY (orbit st'))
                          (xMin (orbit st')) (yMin (orbit st')))) raw
           \<and> (xMin (orbit st'), xMax (orbit st')) = foldl track (0, 0) (map fst (concat raw))
           \<and> (yMin (orbit st'), yMax (orbit st')) = foldl track (0, 0) (map snd (concat raw))
           \<and> scaleX (orbit st') = js_div (2 * SCALE_FACTOR) (round64 (xMax (orbit st') - xMin (orbit st')))
           \<and> scaleY (orbit st') = js_div (2 * SCALE_FACTOR) (round64 (yMax (orbit st') - yMin (orbit st')))"
proof -
  from assms obtain st1 where p: "prepareOrbit env st = Inr st1"
    by (auto simp: generateOrbit_def split: sum.splits)
  define res where "res = subsets_loop (orbitParams st1) (math_random env) (numPointsSubset st1) 0
                   (numSubsets st1) (randomCalls st1) ((0, 0), (0, 0))"
  define raw where "raw = fst res"
  define bnd where "bnd = fst (snd res)"
  have b: "bnd = foldl track2 ((0, 0), (0, 0)) (concat raw)"
    unfolding bnd_def raw_def res_def by (rule subsets_loop_bounds)
  have bx: "fst bnd = foldl track (0, 0) (map fst (concat raw))"
    and "by": "snd bnd = foldl track (0, 0) (map snd (concat raw))"
    by (simp_all add: b foldl_track2)
  have o: "orbit st' =
      \<lparr>subsets = map (map (normalize (js_div (2 * SCALE_FACTOR) (round64 (snd (fst bnd) - fst (fst bnd))))
                               (js_div (2 * SCALE_FACTOR) (round64 (snd (snd bnd) - fst (snd bnd))))
                               (fst (fst bnd)) (fst (snd bnd)))) raw,
       xMin = fst (fst bnd), xMax = snd (fst bnd), yMin = fst (snd bnd), yMax = snd (snd bnd),
       scaleX = js_div (2 * SCALE_FACTOR) (round64 (snd (fst bnd) - fst (fst bnd))),
       scaleY = js_div (2 * SCALE_FACTOR) (round64 (snd (snd bnd) - fst (snd bnd)))\<rparr>"
    using assms p
    by (auto simp: generateOrbit_def case_prod_beta Let_def bnd_def raw_def res_def)
  show ?thesis
    by (rule exI [of _ raw]) (simp add: o flip: bx "by")
qed

lemma generateOrbit_facts:
  assumes "generateOrbit env st = Inr st'"
  shows "(xMin (orbit st'), xMax (orbit st'))
           = foldl track (0, 0) (map pt_x (concat (subsets (orbit st'))))"
    and "(yMin (orbit st'), yMax (orbit st'))
           = foldl track (0, 0) (map pt_y (concat (subsets (orbit st'))))"
    and "scaleX (orbit st') = js_div (2 * SCALE_FACTOR) (round64 (xMax (orbit st') - xMin (orbit st')))"
    and "scaleY (orbit st') = js_div (2 * SCALE_FACTOR) (round64 (yMax (orbit st') - yMin (orbit st')))"
    and "\<forall>q \<in> set (concat (subsets (orbit st'))).
           vec_x (vertex q) = display (scaleX (orbit st')) (xMin (orbit st')) (pt_x q)
           \<and> vec_y (vertex q) = display (scaleY (orbit st')) (yMin (orbit st')) (pt_y q)"
proof -
  let ?n = "normalize (scaleX (orbit st')) (scaleY (orbit st')) (xMin (orbit st')) (yMin (orbit st'))"
  from generateOrbit_raw [OF assms] obtain raw where
    r: "subsets (orbit st') = map (map ?n) raw"
      "(xMin (orbit st'), xMax (orbit st')) = foldl track (0, 0) (map fst (concat raw))"
      "(yMin (orbit st'), yMax (orbit st')) = foldl track (0, 0) (map snd (concat raw))"
      "scaleX (orbit st') = js_div (2 * SCALE_FACTOR) (round64 (xMax (orbit st') - xMin (orbit st')))"
      "scaleY (orbit st') = js_div (2 * SCALE_FACTOR) (round64 (yMax (orbit st') - yMin (orbit st')))"
    by blast
  have c: "concat (subsets (orbit st')) = map ?n (concat raw)"
    by (simp only: r(1) map_concat)
  have mx: "map pt_x (concat (subsets (orbit st'))) = map fst (concat raw)"
    and my: "map pt_y (concat (subsets (orbit st'))) = map snd (concat raw)"
    by (simp_all only: c map_map o_def normalize_fields)
  show "(xMin (orbit st'), xMax (orbit st'))
           = foldl track (0, 0) (map pt_x (concat (subsets (orbit st'))))"
    by (simp only: mx r(2))
  show "(yMin (orbit st'), yMax (orbit st'))
           = foldl track (0, 0) (map pt_y (concat (subsets (orbit st'))))"
    by (simp only: my r(3))
  show "scaleX (orbit st') = js_div (2 * SCALE_FACTOR) (round64 (xMax (orbit st') - xMin (orbit st')))"
    by (rule r(4))
  show "scaleY (orbit st') = js_div (2 * SCALE_FACTOR) (round64 (yMax (orbit st') - yMin (orbit st')))"
    by (rule r(5))
  show "\<forall>q \<in> set (concat (subsets (orbit st'))).
           vec_x (vertex q) = display (scaleX (orbit st')) (xMin (orbit st')) (pt_x q)
           \<and> vec_y (vertex q) = display (scaleY (orbit st')) (yMin (orbit st')) (pt_y q)"
    unfolding c by (auto simp: normalize_fields)
qed

text \<open>What the running bounds are: the least and the greatest of 0 and the raw values.\<close>

lemma generateOrbit_bounds:
  assumes "generateOrbit env st = Inr st'"
  shows "xMin (orbit st') = Min (insert 0 (pt_x ` set (concat (subsets (orbit st')))))"
    and "xMax (orbit st') = Max (insert 0 (pt_x ` set (concat (subsets (orbit st')))))"
    and "yMin (orbit st') = Min (insert 0 (pt_y ` set (concat (subsets (orbit st')))))"
    and "yMax (orbit st') = Max (insert 0 (pt_y ` set (concat (subsets (orbit st')))))"
proof -
  have z: "fst ((0, 0) :: real \<times> real) \<le> snd ((0, 0) :: real \<times> real)" by simp
  note f = generateOrbit_facts(1,2) [OF assms]
  show "xMin (orbit st') = Min (insert 0 (pt_x ` set (concat (subsets (orbit st')))))"
    using foldl_track_Min_Max(1) [OF z, of "map pt_x (concat (subsets (orbit st')))"]
    by (simp flip: f(1))
  show "xMax (orbit st') = Max (insert 0 (pt_x ` set (concat (subsets (orbit st')))))"
    using foldl_track_Min_Max(2) [OF z, of "map pt_x (concat (subsets (orbit st')))"]
    by (simp flip: f(1))
  show "yMin (orbit st') = Min (insert 0 (pt_y ` set (concat (subsets (orbit st')))))"
    using foldl_track_Min_Max(1) [OF z, of "map pt_y (concat (subsets (orbit st')))"]
    by (simp flip: f(2))
  show "yMax (orbit st') = Max (insert 0 (pt_y ` set (concat (subsets (orbit st')))))"
    using foldl_track_Min_Max(2) [OF z, of "map pt_y (concat (subsets (orbit st')))"]
    by (simp flip: f(2))
qed

lemma generateOrbit_box:
  assumes "generateOrbit env st = Inr st'"
  shows "xMin (orbit st') \<le> 0" and "0 \<le> xMax (orbit st')"
    and "yMin (orbit st') \<le> 0" and "0 \<le> yMax (orbit st')"
    and "q \<in> set (concat (subsets (orbit st'))) \<Longrightarrow> xMin (orbit st') \<le> pt_x q \<and> pt_x q \<le> xMax (orbit st')"
    and "q \<in> set (concat (subsets (orbit st'))) \<Longrightarrow> yMin (orbit st') \<le> pt_y q \<and> pt_y q \<le> yMax (orbit st')"
  unfolding generateOrbit_bounds [OF assms] by simp_all


lemma display_lower_edge:
  assumes "isFinite sc"
  shows "display sc lo lo = Num (- SCALE_FACTOR)"
proof -
  from assms obtain s where s: "sc = Num s" by (cases sc) simp_all
  show ?thesis
    by (simp add: s display_def round64_zero SCALE_FACTOR_def round64_numeral)
qed

lemma display_zero_span:
  "js_div (2 * SCALE_FACTOR) (round64 (lo - lo)) = PosInfinity"
  "display PosInfinity lo lo = NaN"
  by (simp_all add: display_def round64_zero SCALE_FACTOR_def)

lemma sane_span_rounds:
  assumes "2 powi (- 1000) \<le> s0" and "s0 \<le> 2 powi 1000"
  shows "\<exists>s1. round64 s0 = Num s1 \<and> s0 / 2 \<le> s1 \<and> s1 \<le> 2 * s0"
proof -
  have "(2::real) powi (- 1022) \<le> 2 powi (- 1000)" by (intro power_int_increasing) simp_all
  moreover have "(2::real) powi 1000 < 2 powi 1023" by (intro power_int_strict_increasing) simp_all
  moreover have p: "0 < s0" using assms(1) zero_less_power_int [of "2::real" "- 1000"] by simp
  ultimately have "2 powi (- 1022) \<le> \<bar>s0\<bar>" "\<bar>s0\<bar> < 2 powi 1023" using assms by simp_all
  from round64_rel [OF this] obtain s1 where r: "round64 s0 = Num s1" "\<bar>s1 - s0\<bar> \<le> \<bar>s0\<bar> / 2 ^ 53"
    by blast
  have "\<bar>s0\<bar> / 2 ^ 53 \<le> s0 / 2" using p by (simp add: field_simps)
  with r(2) have "\<bar>s1 - s0\<bar> \<le> s0 / 2" by linarith
  then have "s0 / 2 \<le> s1" "s1 \<le> 2 * s0" using p by linarith+
  with r(1) show ?thesis by blast
qed

lemma powi_steps:
  "(2::real) powi (k - 1) = 2 powi k / 2"
  "(2::real) powi (k + 1) = 2 * 2 powi k"
  "1 / (2::real) powi k = 2 powi (- k)"
  "(2::real) powi j * 2 powi k = 2 powi (j + k)"
  by (simp_all add: power_int_diff power_int_add power_int_minus field_simps)

lemma sane_quotient:
  fixes s0 s1 :: real
  assumes "2 powi (- 1000) \<le> s0" and "s0 \<le> 2 powi 1000" and "s0 / 2 \<le> s1" and "s1 \<le> 2 * s0"
  shows "2 powi (- 1022) \<le> \<bar>3000 / s1\<bar>" and "\<bar>3000 / s1\<bar> < 2 powi 1023"
proof -
  define H :: real where "H = 2 powi 1001"
  define L :: real where "L = 2 powi (- 1001)"
  have e: "(- 1000 - 1 :: int) = - 1001" "(1000 + 1 :: int) = 1001" "(12 + 1001 :: int) = 1013" by simp_all
  have Lp: "0 < L" and Hp: "0 < H" by (simp_all only: L_def H_def zero_less_power_int zero_less_numeral)
  have "0 < s0" using assms(1) zero_less_power_int [of "2::real" "- 1000"] by linarith
  then have p1: "0 < s1" using assms(3) by linarith
  have lo: "L \<le> s1"
    using powi_steps(1) [of "- 1000", unfolded e] assms(1,3) unfolding L_def by linarith
  have hi: "s1 \<le> H"
    using powi_steps(2) [of 1000, unfolded e] assms(2,4) unfolding H_def by linarith
  have iH: "1 / H = L" unfolding H_def L_def by (rule powi_steps(3))
  have iL: "1 / L = H" using iH Hp Lp by (simp add: field_simps)
  have a: "3000 / H \<le> 3000 / s1" using hi p1 by (intro divide_left_mono) simp_all
  have "1 / H \<le> 3000 / H" using Hp by (intro divide_right_mono) simp_all
  moreover have "(2::real) powi (- 1022) \<le> L"
    unfolding L_def by (intro power_int_increasing) simp_all
  ultimately have "2 powi (- 1022) \<le> 3000 / s1" using a iH by linarith
  then show "2 powi (- 1022) \<le> \<bar>3000 / s1\<bar>" using p1 by simp
  have b: "3000 / s1 \<le> 3000 / L" using lo Lp by (intro divide_left_mono) simp_all
  have "3000 / L = 3000 * H" using iL by simp
  moreover have "3000 * H < 2 powi 12 * H" using Hp by (intro mult_strict_right_mono) simp_all
  moreover have "(2::real) powi 12 * H = 2 powi 1013"
    unfolding H_def using powi_steps(4) [of 12 1001, unfolded e] .
  moreover have "(2::real) powi 1013 \<le> 2 powi 1023" by (intro power_int_increasing) simp_all
  ultimately have "3000 / s1 < 2 powi 1023" using b by linarith
  then show "\<bar>3000 / s1\<bar> < 2 powi 1023" using p1 by simp
qed

lemma small_range:
  fixes x :: real
  assumes "1 \<le> x" and "x \<le> 4000"
  shows "2 powi (- 1022) \<le> \<bar>x\<bar>" and "\<bar>x\<bar> < 2 powi 1023"
proof -
  have "(2::real) powi (- 1022) \<le> 2 powi 0" by (intro power_int_increasing) simp_all
  then show "2 powi (- 1022) \<le> \<bar>x\<bar>" using assms(1) by simp
  have "(2::real) powi 12 \<le> 2 powi 1023" by (intro power_int_increasing) simp_all
  moreover have "(2::real) powi 12 = 4096" by simp
  ultimately show "\<bar>x\<bar> < 2 powi 1023" using assms by linarith
qed

lemma display_upper_edge:
  fixes lo hi :: real
  assumes "2 powi (- 1000) \<le> hi - lo" and "hi - lo \<le> 2 powi 1000"
  shows "isFinite (js_div (2 * SCALE_FACTOR) (round64 (hi - lo)))"
    and "\<exists>v. display (js_div (2 * SCALE_FACTOR) (round64 (hi - lo))) lo hi = Num v
           \<and> \<bar>v - SCALE_FACTOR\<bar> \<le> 1 / 2 ^ 40"
proof -
  define eps :: real where "eps = 1 / 2 ^ 53"
  have eps: "0 < eps" "3000 * eps \<le> 1" "3001 * eps \<le> 1" "1502 * eps \<le> 1"
    "7503 * eps \<le> 1 / 2 ^ 40"
    by (simp_all add: eps_def)
  from sane_span_rounds [OF assms]
  obtain s1 where s: "round64 (hi - lo) = Num s1" "(hi - lo) / 2 \<le> s1" "s1 \<le> 2 * (hi - lo)"
    by blast
  have "0 < hi - lo" using assms(1) zero_less_power_int [of "2::real" "- 1000"] by linarith
  then have "0 < (hi - lo) / 2" by simp
  then have s1: "0 < s1" using s(2) by linarith
  define q0 where "q0 = 3000 / s1"
  have q0: "0 < q0" "q0 * s1 = 3000" using s1 by (simp_all add: q0_def)
  from round64_rel [OF sane_quotient [OF assms s(2,3)]]
  obtain q1 where q: "round64 q0 = Num q1" "\<bar>q1 - q0\<bar> \<le> q0 * eps"
    using q0(1) by (auto simp: q0_def eps_def)
  have sc: "js_div (2 * SCALE_FACTOR) (round64 (hi - lo)) = Num q1"
    using s1 q(1) by (simp add: s(1) SCALE_FACTOR_def q0_def)
  then show "isFinite (js_div (2 * SCALE_FACTOR) (round64 (hi - lo)))" by simp
  define p0 where "p0 = q1 * s1"
  have "p0 - 3000 = (q1 - q0) * s1" by (simp add: p0_def left_diff_distrib q0(2))
  then have "\<bar>p0 - 3000\<bar> = \<bar>q1 - q0\<bar> * s1" using s1 by (simp add: abs_mult)
  also have "\<dots> \<le> q0 * eps * s1" using q(2) s1 by (intro mult_right_mono) simp_all
  also have "\<dots> = 3000 * eps" using q0(2) by (simp add: mult.commute mult.left_commute)
  finally have p0: "\<bar>p0 - 3000\<bar> \<le> 3000 * eps" .
  then have p0r: "2999 \<le> p0" "p0 \<le> 3001" using eps(2) by linarith+
  then have "1 \<le> p0" "p0 \<le> 4000" by linarith+
  from round64_rel [OF small_range [OF this]]
  obtain p1 where p: "round64 p0 = Num p1" "\<bar>p1 - p0\<bar> \<le> \<bar>p0\<bar> * eps"
    by (auto simp: eps_def)
  have "\<bar>p0\<bar> * eps \<le> 3001 * eps" using p0r eps(1) by (intro mult_right_mono) simp_all
  with p(2) have p1: "\<bar>p1 - p0\<bar> \<le> 3001 * eps" by linarith
  define d0 where "d0 = p1 - 1500"
  have d0r: "1498 \<le> d0" "d0 \<le> 1502" using p1 p0r eps(3) unfolding d0_def by linarith+
  then have "1 \<le> d0" "d0 \<le> 4000" by linarith+
  from round64_rel [OF small_range [OF this]]
  obtain v where v: "round64 d0 = Num v" "\<bar>v - d0\<bar> \<le> \<bar>d0\<bar> * eps"
    by (auto simp: eps_def)
  have "\<bar>d0\<bar> * eps \<le> 1502 * eps" using d0r eps(1) by (intro mult_right_mono) simp_all
  with v(2) have v1: "\<bar>v - d0\<bar> \<le> 1502 * eps" by linarith
  have "\<bar>v - 1500\<bar> \<le> 7503 * eps" using v1 p1 p0 unfolding d0_def by linarith
  then have b: "\<bar>v - SCALE_FACTOR\<bar> \<le> 1 / 2 ^ 40" using eps(5) by (simp add: SCALE_FACTOR_def)
  have "display (js_div (2 * SCALE_FACTOR) (round64 (hi - lo))) lo hi = Num v"
    unfolding display_def s(1) sc [unfolded s(1)]
    by (simp add: p(1) [unfolded p0_def] v(1) [unfolded d0_def] SCALE_FACTOR_def)
  with b show "\<exists>v. display (js_div (2 * SCALE_FACTOR) (round64 (hi - lo))) lo hi = Num v
           \<and> \<bar>v - SCALE_FACTOR\<bar> \<le> 1 / 2 ^ 40"
    by blast
qed


lemma vertex_x_edges:
  assumes "generateOrbit env st = Inr st'" and "q \<in> set (concat (subsets (orbit st')))"
  shows "vec_x (vertex q)
           = js_sub (js_mul (scaleX (orbit st')) (round64 (pt_x q - xMin (orbit st')))) SCALE_FACTOR"
    and "isFinite (scaleX (orbit st')) \<Longrightarrow> pt_x q = xMin (orbit st')
           \<Longrightarrow> vec_x (vertex q) = Num (- SCALE_FACTOR)"
    and "2 powi (- 1000) \<le> xMax (orbit st') - xMin (orbit st') \<Longrightarrow> xMax (orbit st') - xMin (orbit st') \<le> 2 powi 1000
           \<Longrightarrow> pt_x q = xMax (orbit st')
           \<Longrightarrow> \<exists>v. vec_x (vertex q) = Num v \<and> \<bar>v - SCALE_FACTOR\<bar> \<le> 1 / 2 ^ 40"
    and "xMin (orbit st') = xMax (orbit st') \<Longrightarrow> vec_x (vertex q) = NaN"
proof -
  from generateOrbit_facts(5) [OF assms(1)] assms(2)
  have v: "vec_x (vertex q) = display (scaleX (orbit st')) (xMin (orbit st')) (pt_x q)" by blast
  note s = generateOrbit_facts(3) [OF assms(1)]
  show "vec_x (vertex q)
           = js_sub (js_mul (scaleX (orbit st')) (round64 (pt_x q - xMin (orbit st')))) SCALE_FACTOR"
    by (simp only: v display_def)
  show "vec_x (vertex q) = Num (- SCALE_FACTOR)"
    if "isFinite (scaleX (orbit st'))" and "pt_x q = xMin (orbit st')"
    by (simp only: v that(2) display_lower_edge [OF that(1)])
  show "\<exists>v. vec_x (vertex q) = Num v \<and> \<bar>v - SCALE_FACTOR\<bar> \<le> 1 / 2 ^ 40"
    if "2 powi (- 1000) \<le> xMax (orbit st') - xMin (orbit st')" and "xMax (orbit st') - xMin (orbit st') \<le> 2 powi 1000"
      and "pt_x q = xMax (orbit st')"
    using display_upper_edge(2) [OF that(1,2)] by (simp only: v that(3) s)
  show "vec_x (vertex q) = NaN" if e: "xMin (orbit st') = xMax (orbit st')"
  proof -
    have "pt_x q = xMin (orbit st')" using generateOrbit_box(5) [OF assms] e by linarith
    then show ?thesis
      by (simp only: v s e [symmetric] display_zero_span)
  qed
qed

lemma vertex_y_edges:
  assumes "generateOrbit env st = Inr st'" and "q \<in> set (concat (subsets (orbit st')))"
  shows "vec_y (vertex q)
           = js_sub (js_mul (scaleY (orbit st')) (round64 (pt_y q - yMin (orbit st')))) SCALE_FACTOR"
    and "isFinite (scaleY (orbit st')) \<Longrightarrow> pt_y q = yMin (orbit st')
           \<Longrightarrow> vec_y (vertex q) = Num (- SCALE_FACTOR)"
    and "2 powi (- 1000) \<le> yMax (orbit st') - yMin (orbit st') \<Longrightarrow> yMax (orbit st') - yMin (orbit st') \<le> 2 powi 1000
           \<Longrightarrow> pt_y q = yMax (orbit st')
           \<Longrightarrow> \<exists>v. vec_y (vertex q) = Num v \<and> \<bar>v - SCALE_FACTOR\<bar> \<le> 1 / 2 ^ 40"
    and "yMin (orbit st') = yMax (orbit st') \<Longrightarrow> vec_y (vertex q) = NaN"
proof -
  from generateOrbit_facts(5) [OF assms(1)] assms(2)
  have v: "vec_y (vertex q) = display (scaleY (orbit st')) (yMin (orbit st')) (pt_y q)" by blast
  note s = generateOrbit_facts(4) [OF assms(1)]
  show "vec_y (vertex q)
           = js_sub (js_mul (scaleY (orbit st')) (round64 (pt_y q - yMin (orbit st')))) SCALE_FACTOR"
    by (simp only: v display_def)
  show "vec_y (vertex q) = Num (- SCALE_FACTOR)"
    if "isFinite (scaleY (orbit st'))" and "pt_y q = yMin (orbit st')"
    by (simp only: v that(2) display_lower_edge [OF that(1)])
  show "\<exists>v. vec_y (vertex q) = Num v \<and> \<bar>v - SCALE_FACTOR\<bar> \<le> 1 / 2 ^ 40"
    if "2 powi (- 1000) \<le> yMax (orbit st') - yMin (orbit st')" and "yMax (orbit st') - yMin (orbit st') \<le> 2 powi 1000"
      and "pt_y q = yMax (orbit st')"
    using display_upper_edge(2) [OF that(1,2)] by (simp only: v that(3) s)
  show "vec_y (vertex q) = NaN" if e: "yMin (orbit st') = yMax (orbit st')"
  proof -
    have "pt_y q = yMin (orbit st')" using generateOrbit_box(6) [OF assms] e by linarith
    then show ?thesis
      by (simp only: v s e [symmetric] display_zero_span)
  qed
qed

lemma scale_of_span:
  assumes "generateOrbit env st = Inr st'"
  shows "2 powi (- 1000) \<le> xMax (orbit st') - xMin (orbit st') \<Longrightarrow> xMax (orbit st') - xMin (orbit st') \<le> 2 powi 1000
           \<Longrightarrow> isFinite (scaleX (orbit st'))"
    and "2 powi (- 1000) \<le> yMax (orbit st') - yMin (orbit st') \<Longrightarrow> yMax (orbit st') - yMin (orbit st') \<le> 2 powi 1000
           \<Longrightarrow> isFinite (scaleY (orbit st'))"
    and "xMin (orbit st') = xMax (orbit st') \<Longrightarrow> scaleX (orbit st') = PosInfinity"
    and "yMin (orbit st') = yMax (orbit st') \<Longrightarrow> scaleY (orbit st') = PosInfinity"
proof -
  note s = generateOrbit_facts(3,4) [OF assms]
  show "isFinite (scaleX (orbit st'))"
    if "2 powi (- 1000) \<le> xMax (orbit st') - xMin (orbit st')" and "xMax (orbit st') - xMin (orbit st') \<le> 2 powi 1000"
    using display_upper_edge(1) [OF that] by (simp only: s)
  show "isFinite (scaleY (orbit st'))"
    if "2 powi (- 1000) \<le> yMax (orbit st') - yMin (orbit st')" and "yMax (orbit st') - yMin (orbit st') \<le> 2 powi 1000"
    using display_upper_edge(1) [OF that] by (simp only: s)
  show "scaleX (orbit st') = PosInfinity" if "xMin (orbit st') = xMax (orbit st')"
    by (simp only: s that [symmetric] display_zero_span)
  show "scaleY (orbit st') = PosInfinity" if "yMin (orbit st') = yMax (orbit st')"
    by (simp only: s that [symmetric] display_zero_span)
qed


text \<open>
  C9, as the code has it. There is no fallback for a degenerate box: the bounds satisfy
  \<open>xMin \<le> xMax\<close>, and when \<open>xMin = xMax\<close> the scale is the infinity of the division by zero
  and the display \<open>x\<close> of every point is NaN. Likewise for \<open>y\<close>.
\<close>

theorem generateOrbit_degenerate_box:
  assumes "generateOrbit env st = Inr st'"
  shows "xMin (orbit st') \<le> xMax (orbit st') \<and> yMin (orbit st') \<le> yMax (orbit st')
   \<and> (xMin (orbit st') = xMax (orbit st') \<longrightarrow>
        scaleX (orbit st') = PosInfinity \<and> (\<forall>q \<in> set (concat (subsets (orbit st'))). vec_x (vertex q) = NaN))
   \<and> (yMin (orbit st') = yMax (orbit st') \<longrightarrow>
        scaleY (orbit st') = PosInfinity \<and> (\<forall>q \<in> set (concat (subsets (orbit st'))). vec_y (vertex q) = NaN))"
proof -
  note b = generateOrbit_box [OF assms]
  have o: "xMin (orbit st') \<le> xMax (orbit st')" "yMin (orbit st') \<le> yMax (orbit st')"
    using b(1-4) by linarith+
  have x: "(xMin (orbit st') = xMax (orbit st') \<longrightarrow>
        scaleX (orbit st') = PosInfinity \<and> (\<forall>q \<in> set (concat (subsets (orbit st'))). vec_x (vertex q) = NaN))"
    using scale_of_span(3) [OF assms] vertex_x_edges(4) [OF assms] by blast
  have y: "(yMin (orbit st') = yMax (orbit st') \<longrightarrow>
        scaleY (orbit st') = PosInfinity \<and> (\<forall>q \<in> set (concat (subsets (orbit st'))). vec_y (vertex q) = NaN))"
    using scale_of_span(4) [OF assms] vertex_y_edges(4) [OF assms] by blast
  from o x y show ?thesis by blast
qed

lemma shuffleParams_counts:
  "shuffleParams env st = Inr st1
     \<Longrightarrow> numSubsets st1 = numSubsets st \<and> numPointsSubset st1 = numPointsSubset st
         \<and> randomCalls st1 \<ge> randomCalls st"
  by (auto simp: shuffleParams_def Let_def split: if_splits)

lemma hop_origin: "hop p (0, 0) = (coef_e p, coef_a p)"
  by (simp add: hop_def Let_def)

lemma generateOrbit_single_point:
  assumes "shuffleParams env st = Inr st1" and "numSubsets st = 1" and "numPointsSubset st = 1"
  shows "\<exists>st'. generateOrbit env st = Inr st'
           \<and> map pt_x (concat (subsets (orbit st'))) = [coef_e (orbitParams st1)]
           \<and> map pt_y (concat (subsets (orbit st'))) = [coef_a (orbitParams st1)]"
proof -
  from shuffleParams_counts [OF assms(1)] assms(2,3)
  have n: "numSubsets st1 = Suc 0" "numPointsSubset st1 = Suc 0" by simp_all
  show ?thesis
    by (simp add: generateOrbit_def prepareOrbit_def assms(1) n Let_def case_prod_beta
          start_coord_def hop_origin normalize_fields)
qed

lemma single_point_orbit:
  assumes "generateOrbit env st = Inr st'"
    and "map pt_x (concat (subsets (orbit st'))) = [x]"
    and "map pt_y (concat (subsets (orbit st'))) = [y]"
  shows "xMin (orbit st') = min 0 x" and "xMax (orbit st') = max 0 x"
    and "yMin (orbit st') = min 0 y" and "yMax (orbit st') = max 0 y"
    and "\<exists>q. concat (subsets (orbit st')) = [q] \<and> pt_x q = x \<and> pt_y q = y"
proof -
  from assms(2,3) obtain q where q: "concat (subsets (orbit st')) = [q]" "pt_x q = x" "pt_y q = y"
    by (cases "concat (subsets (orbit st'))") auto
  then show "\<exists>q. concat (subsets (orbit st')) = [q] \<and> pt_x q = x \<and> pt_y q = y" by blast
  note b = generateOrbit_bounds [OF assms(1)]
  show "xMin (orbit st') = min 0 x" and "xMax (orbit st') = max 0 x"
    and "yMin (orbit st') = min 0 y" and "yMax (orbit st') = max 0 y"
    unfolding b q(1) by (simp_all add: q(2,3))
qed

lemma shuffleParams_single_env:
  "\<exists>st1. shuffleParams (single_env p) example_state = Inr st1 \<and> orbitParams st1 = p"
  by (simp add: shuffleParams_def single_env_def half_env_def example_state_def Let_def)

lemma shuffleParams_draws_env:
  "\<exists>st1. shuffleParams (draws_env r) (example_state\<lparr>vibeCheck := False\<rparr>) = Inr st1
      \<and> coef_a (orbitParams st1) = - 30 + r 0 * 60
      \<and> coef_e (orbitParams st1) = r 4 * 12"
  by (simp add: shuffleParams_def draws_env_def half_env_def example_state_def Let_def
        constraints_a_def constraints_e_def)

lemma example_counts:
  "numSubsets example_state = 1" "numPointsSubset example_state = 1"
  "numSubsets (example_state\<lparr>vibeCheck := False\<rparr>) = 1"
  "numPointsSubset (example_state\<lparr>vibeCheck := False\<rparr>) = 1"
  by (simp_all add: example_state_def)

lemma generateOrbit_single_env:
  "\<exists>st'. generateOrbit (single_env p) example_state = Inr st'
     \<and> map pt_x (concat (subsets (orbit st'))) = [coef_e p]
     \<and> map pt_y (concat (subsets (orbit st'))) = [coef_a p]"
proof -
  obtain st1 where s: "shuffleParams (single_env p) example_state = Inr st1" "orbitParams st1 = p"
    using shuffleParams_single_env by blast
  from generateOrbit_single_point [OF s(1) example_counts(1,2)] show ?thesis
    by (simp only: s(2))
qed

lemma generateOrbit_draws_env:
  "\<exists>st'. generateOrbit (draws_env r) (example_state\<lparr>vibeCheck := False\<rparr>) = Inr st'
     \<and> map pt_x (concat (subsets (orbit st'))) = [r 4 * 12]
     \<and> map pt_y (concat (subsets (orbit st'))) = [- 30 + r 0 * 60]"
proof -
  obtain st1 where s: "shuffleParams (draws_env r) (example_state\<lparr>vibeCheck := False\<rparr>) = Inr st1"
      "coef_a (orbitParams st1) = - 30 + r 0 * 60" "coef_e (orbitParams st1) = r 4 * 12"
    using shuffleParams_draws_env by blast
  from generateOrbit_single_point [OF s(1) example_counts(3,4)] show ?thesis
    by (simp only: s(2,3))
qed







lemma drift_within_constraints:
  "cmin constraints_a \<le> coef_a drift_params \<and> coef_a drift_params \<le> cmax constraints_a
   \<and> cmin constraints_b \<le> coef_b drift_params \<and> coef_b drift_params \<le> cmax constraints_b
   \<and> cmin constraints_c \<le> coef_c drift_params \<and> coef_c drift_params \<le> cmax constraints_c
   \<and> cmin constraints_d \<le> coef_d drift_params \<and> coef_d drift_params \<le> cmax constraints_d
   \<and> cmin constraints_e \<le> coef_e drift_params \<and> coef_e drift_params \<le> cmax constraints_e"
  by (simp add: drift_params_def constraints_a_def constraints_b_def constraints_c_def
        constraints_d_def constraints_e_def)



lemma single_point_display:
  assumes "generateOrbit env st = Inr st'"
    and "map pt_x (concat (subsets (orbit st'))) = [x]"
    and "map pt_y (concat (subsets (orbit st'))) = [y]"
  shows "scaleX (orbit st') = js_div (2 * SCALE_FACTOR) (round64 (max 0 x - min 0 x))"
    and "scaleY (orbit st') = js_div (2 * SCALE_FACTOR) (round64 (max 0 y - min 0 y))"
    and "map (\<lambda>q. vec_x (vertex q)) (concat (subsets (orbit st')))
           = [display (js_div (2 * SCALE_FACTOR) (round64 (max 0 x - min 0 x))) (min 0 x) x]"
    and "map (\<lambda>q. vec_y (vertex q)) (concat (subsets (orbit st')))
           = [display (js_div (2 * SCALE_FACTOR) (round64 (max 0 y - min 0 y))) (min 0 y) y]"
proof -
  note b = single_point_orbit(1-4) [OF assms]
  note f = generateOrbit_facts(3-5) [OF assms(1)]
  from single_point_orbit(5) [OF assms]
  obtain q where q: "(concat (subsets (orbit st'))) = [q]" "pt_x q = x" "pt_y q = y" by blast
  then have m: "q \<in> set (concat (subsets (orbit st')))" by simp
  show sx: "scaleX (orbit st') = js_div (2 * SCALE_FACTOR) (round64 (max 0 x - min 0 x))"
    and sy: "scaleY (orbit st') = js_div (2 * SCALE_FACTOR) (round64 (max 0 y - min 0 y))"
    by (simp_all only: f(1,2) b)
  from f(3) m have v: "vec_x (vertex q) = display (scaleX (orbit st')) (xMin (orbit st')) (pt_x q)"
    "vec_y (vertex q) = display (scaleY (orbit st')) (yMin (orbit st')) (pt_y q)"
    by blast+
  show "map (\<lambda>q. vec_x (vertex q)) (concat (subsets (orbit st')))
           = [display (js_div (2 * SCALE_FACTOR) (round64 (max 0 x - min 0 x))) (min 0 x) x]"
    by (simp add: q(1) v(1) sx b q(2))
  show "map (\<lambda>q. vec_y (vertex q)) (concat (subsets (orbit st')))
           = [display (js_div (2 * SCALE_FACTOR) (round64 (max 0 y - min 0 y))) (min 0 y) y]"
    by (simp add: q(1) v(2) sy b q(3))
qed




text \<open>
  C9 as stated fails. In randomized mode with every draw one half (\<open>a = 0\<close>, \<open>e = 6\<close>) and one
  subset of one point, the point is \<open>(6, 0)\<close>: the \<open>y\<close> span is zero, \<open>scaleY\<close> is infinite
  and the vertex's \<open>y\<close> is NaN. In curated mode with an all-zero catalog entry both
  coordinates of the vertex are NaN.
\<close>

theorem zero_span_gives_NaN:
  "(\<exists>st'. generateOrbit (draws_env (\<lambda>n. 1/2)) (example_state\<lparr>vibeCheck := False\<rparr>) = Inr st'
      \<and> map pt_y (concat (subsets (orbit st'))) = [0]
      \<and> yMin (orbit st') = yMax (orbit st')
      \<and> scaleY (orbit st') = PosInfinity
      \<and> map (\<lambda>q. vec_y (vertex q)) (concat (subsets (orbit st'))) = [NaN])
   \<and> (\<exists>st'. generateOrbit (single_env zero_params) example_state = Inr st'
      \<and> scaleX (orbit st') = PosInfinity \<and> scaleY (orbit st') = PosInfinity
      \<and> map (\<lambda>q. vec_x (vertex q)) (concat (subsets (orbit st'))) = [NaN]
      \<and> map (\<lambda>q. vec_y (vertex q)) (concat (subsets (orbit st'))) = [NaN])
   \<and> \<not> isFinite PosInfinity \<and> \<not> isFinite NaN"
proof -
  have z: "js_div (2 * SCALE_FACTOR) (round64 0) = PosInfinity" "display PosInfinity 0 0 = NaN"
    using display_zero_span [of 0] by simp_all
  have a: "\<exists>st'. generateOrbit (draws_env (\<lambda>n. 1/2)) (example_state\<lparr>vibeCheck := False\<rparr>) = Inr st'
      \<and> map pt_y (concat (subsets (orbit st'))) = [0]
      \<and> yMin (orbit st') = yMax (orbit st')
      \<and> scaleY (orbit st') = PosInfinity
      \<and> map (\<lambda>q. vec_y (vertex q)) (concat (subsets (orbit st'))) = [NaN]"
  proof -
    from generateOrbit_draws_env [of "\<lambda>n. 1/2"]
    obtain st' where g: "generateOrbit (draws_env (\<lambda>n. 1/2)) (example_state\<lparr>vibeCheck := False\<rparr>) = Inr st'"
      and px: "map pt_x (concat (subsets (orbit st'))) = [6]" and py: "map pt_y (concat (subsets (orbit st'))) = [0]"
      by auto
    note b = single_point_orbit(1-4) [OF g px py]
    note d = single_point_display [OF g px py]
    show ?thesis using g py by (simp add: b d z)
  qed
  have b: "\<exists>st'. generateOrbit (single_env zero_params) example_state = Inr st'
      \<and> scaleX (orbit st') = PosInfinity \<and> scaleY (orbit st') = PosInfinity
      \<and> map (\<lambda>q. vec_x (vertex q)) (concat (subsets (orbit st'))) = [NaN]
      \<and> map (\<lambda>q. vec_y (vertex q)) (concat (subsets (orbit st'))) = [NaN]"
  proof -
    from generateOrbit_single_env [of zero_params]
    obtain st' where g: "generateOrbit (single_env zero_params) example_state = Inr st'"
      and px: "map pt_x (concat (subsets (orbit st'))) = [0]" and py: "map pt_y (concat (subsets (orbit st'))) = [0]"
      by (auto simp: zero_params_def)
    note d = single_point_display [OF g px py]
    show ?thesis using g by (simp add: d z)
  qed
  from a b show ?thesis by simp
qed


theorem generateOrbit_degenerate_box_witness:
  "\<exists>st'. generateOrbit (single_env zero_params) example_state = Inr st'
     \<and> map pt_x (concat (subsets (orbit st'))) = [0] \<and> map pt_y (concat (subsets (orbit st'))) = [0]
     \<and> xMin (orbit st') = xMax (orbit st')
     \<and> scaleX (orbit st') = PosInfinity
     \<and> map (\<lambda>q. vec_x (vertex q)) (concat (subsets (orbit st'))) = [NaN]
     \<and> yMin (orbit st') = yMax (orbit st')
     \<and> scaleY (orbit st') = PosInfinity
     \<and> map (\<lambda>q. vec_y (vertex q)) (concat (subsets (orbit st'))) = [NaN]"
proof -
  from generateOrbit_single_env [of zero_params]
  obtain st' where g: "generateOrbit (single_env zero_params) example_state = Inr st'"
    and px: "map pt_x (concat (subsets (orbit st'))) = [0]" and py: "map pt_y (concat (subsets (orbit st'))) = [0]"
    by (auto simp: zero_params_def)
  note T = generateOrbit_degenerate_box [OF g]
  note b = single_point_orbit(1-4) [OF g px py]
  from single_point_orbit(5) [OF g px py]
  obtain q where q: "(concat (subsets (orbit st'))) = [q]" by blast
  then have m: "q \<in> set (concat (subsets (orbit st')))" by simp
  have o: "xMin (orbit st') = xMax (orbit st')" "yMin (orbit st') = yMax (orbit st')"
    by (simp_all add: b)
  from T o have ix: "scaleX (orbit st') = PosInfinity"
    and ax: "\<forall>q \<in> set (concat (subsets (orbit st'))). vec_x (vertex q) = NaN"
    and iy: "scaleY (orbit st') = PosInfinity"
    and ay: "\<forall>q \<in> set (concat (subsets (orbit st'))). vec_y (vertex q) = NaN"
    by blast+
  from ax m have "vec_x (vertex q) = NaN" by blast
  then have vx: "map (\<lambda>q. vec_x (vertex q)) (concat (subsets (orbit st'))) = [NaN]" by (simp add: q)
  from ay m have "vec_y (vertex q) = NaN" by blast
  then have vy: "map (\<lambda>q. vec_y (vertex q)) (concat (subsets (orbit st'))) = [NaN]" by (simp add: q)
  from g px py o ix vx iy vy show ?thesis by (intro exI [of _ st'] conjI)
qed

end
